theory Spec2Isabelle
  imports Main
begin

section \<open>The pane tree of TerminalApp/Pane.cpp\<close>

text \<open>
  A \<open>Pane\<close> object is a node of a binary tree. The class keeps every member on every
  node, whether the node is a leaf or a split, so the model does the same: the members
  that are not child pointers form a record, and a node is that record with its two
  child pointers (\<open>None\<close> is \<open>nullptr\<close>). The XAML members (\<open>_root\<close>,
  \<open>_separatorRoot\<close>, the row and column definitions) only lay the panes out and are
  left out.

  Type \<open>'c\<close> is a non-null \<open>TermControl\<close> handle, \<open>'g\<close> a profile \<open>GUID\<close>,
  \<open>'s\<close> a \<open>TerminalSettings\<close> value.
\<close>

type_synonym addr = nat
  \<comment> \<open>the identity of a \<open>Pane\<close> object: the \<open>this\<close> its handlers capture\<close>

type_synonym event_token = nat
  \<comment> \<open>\<open>winrt::event_token\<close>; the value-initialised token \<open>{}\<close> is 0\<close>

datatype SplitState = SplitState_None | Vertical | Horizontal

datatype error =
    NullDereference    \<comment> \<open>a call through a null \<open>shared_ptr\<close> or a null \<open>TermControl\<close>\<close>
  | BadOptionalAccess  \<comment> \<open>\<open>_profile.value()\<close> on an empty optional\<close>
  | DanglingThis       \<comment> \<open>a handler run on a \<open>Pane\<close> that has been released\<close>

record ('c, 'g) members =
  self :: addr
  control :: "'c option"
  lastFocused :: bool
  profile :: "'g option"
  splitState :: SplitState
  connectionClosedToken :: event_token
  firstClosedToken :: event_token
  secondClosedToken :: event_token
  closedHandlers :: "(event_token \<times> addr \<times> bool) list"
    \<comment> \<open>\<open>_closedHandlers\<close>: each delegate is the lambda of \<open>_SetupChildCloseHandlers\<close>,
        kept as the subscriber it captured and the argument it passes to \<open>_CloseChild\<close>\<close>

datatype ('c, 'g) Pane =
  Pane (members: "('c, 'g) members") (firstChild: "('c, 'g) Pane option")
    (secondChild: "('c, 'g) Pane option")

text \<open>
  What the panes do to their collaborators is kept in a \<open>world\<close>: the delegates
  registered on each control's \<open>ConnectionClosed\<close> event (each is the lambda of
  \<open>_AddControlToRoot\<close>, kept as the pane it captured), the calls made on controls, and
  the next address \<open>make_shared\<close> hands out. Addresses are never reused.
\<close>

datatype ('c, 's) call = UpdateSettings 'c 's | Focus 'c

record ('c, 's) world =
  ConnectionClosed :: "'c \<Rightarrow> (event_token \<times> addr) list"
  calls :: "('c, 's) call list"
  heapNext :: addr

subsection \<open>Events\<close>

text \<open>
  Modelled from the spec: \<open>DEFINE_EVENT\<close> and \<open>winrt::event\<close> are not among the
  sources. The spec (sections 4.5 and 6) asks of a notification that one can subscribe to
  it and unsubscribe from it; so adding a delegate appends it under a token the event does
  not hold yet and returns the token, removing a token drops the delegate stored under
  it, and raising the event runs the delegates in the order they were added.
\<close>

definition fresh_token :: "(event_token \<times> 'h) list \<Rightarrow> event_token" where
  "fresh_token hs = Suc (fold max (map fst hs) 0)"

definition event_add :: "(event_token \<times> 'h) list \<Rightarrow> 'h \<Rightarrow> event_token \<times> (event_token \<times> 'h) list" where
  "event_add hs h = (fresh_token hs, hs @ [(fresh_token hs, h)])"

definition event_remove :: "(event_token \<times> 'h) list \<Rightarrow> event_token \<Rightarrow> (event_token \<times> 'h) list" where
  "event_remove hs t = filter (\<lambda>e. fst e \<noteq> t) hs"

subsection \<open>Construction\<close>

definition AddControlToRoot ::
  "'c option \<Rightarrow> ('c, 'g) Pane \<Rightarrow> ('c, 's) world \<Rightarrow> error + (('c, 'g) Pane \<times> ('c, 's) world)" where
  "AddControlToRoot ctl p w =
     (case ctl of
        None \<Rightarrow> Inl NullDereference
      | Some c \<Rightarrow>
          (let (tok, hs) = event_add (ConnectionClosed w c) (self (members p))
           in Inr (Pane ((members p)\<lparr>connectionClosedToken := tok\<rparr>) (firstChild p) (secondChild p),
                   w\<lparr>ConnectionClosed := (ConnectionClosed w)(c := hs)\<rparr>)))"

text \<open>
  \<open>std::make_shared<Pane>(profile, control, lastFocused)\<close>: a fresh object, then the
  constructor's member initialisers and its call of \<open>_AddControlToRoot\<close>.
\<close>

definition make_shared_Pane ::
  "'g \<Rightarrow> 'c option \<Rightarrow> bool \<Rightarrow> ('c, 's) world \<Rightarrow> error + (('c, 'g) Pane \<times> ('c, 's) world)" where
  "make_shared_Pane prof ctl lf w =
     AddControlToRoot ctl
       (Pane \<lparr>self = heapNext w, control = ctl, lastFocused = lf, profile = Some prof,
              splitState = SplitState_None, connectionClosedToken = 0, firstClosedToken = 0,
              secondClosedToken = 0, closedHandlers = []\<rparr> None None)
       (w\<lparr>heapNext := Suc (heapNext w)\<rparr>)"

subsection \<open>Queries\<close>

definition IsLeaf :: "('c, 'g) Pane \<Rightarrow> bool" where
  "IsLeaf p = (splitState (members p) = SplitState_None)"

definition WasLastFocused :: "('c, 'g) Pane \<Rightarrow> bool" where
  "WasLastFocused p = lastFocused (members p)"

fun GetLastFocusedTerminalControl :: "('c, 'g) Pane \<Rightarrow> error + 'c option" where
  "GetLastFocusedTerminalControl (Pane m fc sc) =
     (if IsLeaf (Pane m fc sc) then Inr (if lastFocused m then control m else None)
      else
        (case fc of
           None \<Rightarrow> Inl NullDereference
         | Some f \<Rightarrow>
             (case GetLastFocusedTerminalControl f of
                Inl e \<Rightarrow> Inl e
              | Inr (Some c) \<Rightarrow> Inr (Some c)
              | Inr None \<Rightarrow>
                  (case sc of
                     None \<Rightarrow> Inl NullDereference
                   | Some s \<Rightarrow> GetLastFocusedTerminalControl s))))"

fun GetLastFocusedProfile :: "('c, 'g) Pane \<Rightarrow> error + 'g option" where
  "GetLastFocusedProfile (Pane m fc sc) =
     (if IsLeaf (Pane m fc sc) then Inr (if lastFocused m then profile m else None)
      else
        (case fc of
           None \<Rightarrow> Inl NullDereference
         | Some f \<Rightarrow>
             (case GetLastFocusedProfile f of
                Inl e \<Rightarrow> Inl e
              | Inr (Some g) \<Rightarrow> Inr (Some g)
              | Inr None \<Rightarrow>
                  (case sc of
                     None \<Rightarrow> Inl NullDereference
                   | Some s \<Rightarrow> GetLastFocusedProfile s))))"

text \<open>
  \<open>focused c\<close> stands for \<open>c.GetControl().FocusState() != FocusState::Unfocused\<close>, the
  live answer of the UI for control \<open>c\<close>.
\<close>

fun HasFocusedChild :: "('c \<Rightarrow> bool) \<Rightarrow> ('c, 'g) Pane \<Rightarrow> bool" where
  "HasFocusedChild focused (Pane m fc sc) =
     (let controlFocused = (case control m of None \<Rightarrow> False | Some c \<Rightarrow> focused c);
          firstFocused = (case fc of None \<Rightarrow> False | Some f \<Rightarrow> HasFocusedChild focused f);
          secondFocused = (case sc of None \<Rightarrow> False | Some s \<Rightarrow> HasFocusedChild focused s)
      in controlFocused \<or> firstFocused \<or> secondFocused)"

subsection \<open>Focus tracking and settings\<close>

fun CheckFocus :: "('c \<Rightarrow> bool) \<Rightarrow> ('c, 'g) Pane \<Rightarrow> error + ('c, 'g) Pane" where
  "CheckFocus focused (Pane m fc sc) =
     (if IsLeaf (Pane m fc sc) then
        (let controlFocused = (case control m of None \<Rightarrow> False | Some c \<Rightarrow> focused c)
         in Inr (Pane (m\<lparr>lastFocused := controlFocused\<rparr>) fc sc))
      else
        (case fc of
           None \<Rightarrow> Inl NullDereference
         | Some f \<Rightarrow>
             (case CheckFocus focused f of
                Inl e \<Rightarrow> Inl e
              | Inr f' \<Rightarrow>
                  (case sc of
                     None \<Rightarrow> Inl NullDereference
                   | Some s \<Rightarrow>
                       (case CheckFocus focused s of
                          Inl e \<Rightarrow> Inl e
                        | Inr s' \<Rightarrow> Inr (Pane (m\<lparr>lastFocused := False\<rparr>) (Some f') (Some s')))))))"

fun CheckUpdateSettings ::
  "'s \<Rightarrow> 'g \<Rightarrow> ('c, 'g) Pane \<Rightarrow> ('c, 's) world \<Rightarrow> error + (('c, 'g) Pane \<times> ('c, 's) world)" where
  "CheckUpdateSettings settings prof (Pane m fc sc) w =
     (if \<not> IsLeaf (Pane m fc sc) then
        (case fc of
           None \<Rightarrow> Inl NullDereference
         | Some f \<Rightarrow>
             (case CheckUpdateSettings settings prof f w of
                Inl e \<Rightarrow> Inl e
              | Inr (f', w1) \<Rightarrow>
                  (case sc of
                     None \<Rightarrow> Inl NullDereference
                   | Some s \<Rightarrow>
                       (case CheckUpdateSettings settings prof s w1 of
                          Inl e \<Rightarrow> Inl e
                        | Inr (s', w2) \<Rightarrow> Inr (Pane m (Some f') (Some s'), w2)))))
      else if Some prof = profile m then
        (case control m of
           None \<Rightarrow> Inl NullDereference
         | Some c \<Rightarrow> Inr (Pane m fc sc, w\<lparr>calls := calls w @ [UpdateSettings c settings]\<rparr>))
      else Inr (Pane m fc sc, w))"

subsection \<open>Close and collapse\<close>

definition SetupChildCloseHandlers :: "('c, 'g) Pane \<Rightarrow> error + ('c, 'g) Pane" where
  "SetupChildCloseHandlers p =
     (case firstChild p of
        None \<Rightarrow> Inl NullDereference
      | Some f \<Rightarrow>
          (let (t1, hs1) = event_add (closedHandlers (members f)) (self (members p), True);
               f' = Pane ((members f)\<lparr>closedHandlers := hs1\<rparr>) (firstChild f) (secondChild f);
               m1 = (members p)\<lparr>firstClosedToken := t1\<rparr>
           in (case secondChild p of
                 None \<Rightarrow> Inl NullDereference
               | Some s \<Rightarrow>
                   (let (t2, hs2) = event_add (closedHandlers (members s)) (self (members p), False);
                        s' = Pane ((members s)\<lparr>closedHandlers := hs2\<rparr>) (firstChild s) (secondChild s)
                    in Inr (Pane (m1\<lparr>secondClosedToken := t2\<rparr>) (Some f') (Some s'))))))"

text \<open>\<open>p->Closed(token)\<close>: the revoking overload of the \<open>Closed\<close> event of \<open>p\<close>.\<close>

definition Closed_revoke :: "event_token \<Rightarrow> ('c, 'g) Pane \<Rightarrow> ('c, 'g) Pane" where
  "Closed_revoke t p =
     Pane ((members p)\<lparr>closedHandlers := event_remove (closedHandlers (members p)) t\<rparr>)
       (firstChild p) (secondChild p)"

definition CloseChild ::
  "bool \<Rightarrow> ('c, 'g) Pane \<Rightarrow> ('c, 's) world \<Rightarrow> error + (('c, 'g) Pane \<times> ('c, 's) world)" where
  "CloseChild closeFirst p w =
     (case (if closeFirst then secondChild p else firstChild p) of
        None \<Rightarrow> Inl NullDereference
      | Some remainingChild \<Rightarrow>
          (case firstChild p of
             None \<Rightarrow> Inl NullDereference
           | Some f \<Rightarrow>
               (case secondChild p of
                  None \<Rightarrow> Inl NullDereference
                | Some s \<Rightarrow>
                    if IsLeaf remainingChild then
                      (let m1 = (members p)
                             \<lparr>control := (if closeFirst then control (members s) else control (members f)),
                              profile := (if closeFirst then profile (members s) else profile (members f)),
                              lastFocused := (lastFocused (members f) \<or> lastFocused (members s))\<rparr>
                       in (case AddControlToRoot (control m1) (Pane m1 (Some f) (Some s)) w of
                             Inl e \<Rightarrow> Inl e
                           | Inr (p2, w2) \<Rightarrow>
                               (if lastFocused (members p2) then
                                  (case control (members p2) of
                                     None \<Rightarrow> Inl NullDereference
                                   | Some c \<Rightarrow>
                                       Inr (Pane ((members p2)\<lparr>splitState := SplitState_None\<rparr>) None None,
                                            w2\<lparr>calls := calls w2 @ [Focus c]\<rparr>))
                                else Inr (Pane ((members p2)\<lparr>splitState := SplitState_None\<rparr>) None None, w2))))
                    else
                      (let f1 = Closed_revoke (firstClosedToken (members p)) f;
                           s1 = Closed_revoke (secondClosedToken (members p)) s;
                           remaining1 = (if closeFirst then s1 else f1);
                           m1 = (members p)\<lparr>splitState := splitState (members remaining1)\<rparr>
                       in (case SetupChildCloseHandlers
                                  (Pane m1 (firstChild remaining1) (secondChild remaining1)) of
                             Inl e \<Rightarrow> Inl e
                           | Inr p2 \<Rightarrow> Inr (p2, w))))))"

subsection \<open>Split\<close>

text \<open>
  Modelled from the spec: the default argument of the constructor's \<open>lastFocused\<close>
  parameter, declared in \<open>Pane.h\<close>, which is not among the sources. Section 4.4 of the
  spec leaves it to the external layer which of the two new leaves holds focus after a
  split, and section 3 allows at most one flagged leaf; both new leaves are built with the
  same default, so it is false.
\<close>

definition lastFocused_default :: bool where
  "lastFocused_default = False"

text \<open>
  The part of \<open>SplitVertical\<close> and \<open>SplitHorizontal\<close> that runs on a leaf. Both
  children are constructed with two arguments, so they take the default of the
  constructor's third parameter; the functions below take that default as their
  parameter \<open>dflt\<close>, and what holds for either value is proved for both.
\<close>

definition SplitLeaf ::
  "SplitState \<Rightarrow> bool \<Rightarrow> 'g \<Rightarrow> 'c option \<Rightarrow> ('c, 'g) Pane \<Rightarrow> ('c, 's) world
     \<Rightarrow> error + (('c, 'g) Pane \<times> ('c, 's) world)" where
  "SplitLeaf orientation dflt prof ctl p w =
     (case control (members p) of
        None \<Rightarrow> Inl NullDereference
      | Some c0 \<Rightarrow>
          (let w1 = w\<lparr>ConnectionClosed := (ConnectionClosed w)
                        (c0 := event_remove (ConnectionClosed w c0) (connectionClosedToken (members p)))\<rparr>;
               m1 = (members p)\<lparr>splitState := orientation\<rparr>
           in (case profile m1 of
                 None \<Rightarrow> Inl BadOptionalAccess
               | Some g0 \<Rightarrow>
                   (case make_shared_Pane g0 (control m1) dflt w1 of
                      Inl e \<Rightarrow> Inl e
                    | Inr (f, w2) \<Rightarrow>
                        (let m2 = m1\<lparr>profile := None, control := None\<rparr>
                         in (case make_shared_Pane prof ctl dflt w2 of
                               Inl e \<Rightarrow> Inl e
                             | Inr (s, w3) \<Rightarrow>
                                 (case SetupChildCloseHandlers (Pane m2 (Some f) (Some s)) of
                                    Inl e \<Rightarrow> Inl e
                                  | Inr p3 \<Rightarrow>
                                      Inr (Pane ((members p3)\<lparr>lastFocused := False\<rparr>)
                                             (firstChild p3) (secondChild p3), w3))))))))"

text \<open>
  \<open>SplitVertical\<close> and \<open>SplitHorizontal\<close> are the same function up to the orientation
  they store and the grid calls they make, so they are one function of the orientation.
\<close>

fun Split ::
  "SplitState \<Rightarrow> bool \<Rightarrow> ('c \<Rightarrow> bool) \<Rightarrow> 'g \<Rightarrow> 'c option \<Rightarrow> ('c, 'g) Pane \<Rightarrow> ('c, 's) world
     \<Rightarrow> error + (('c, 'g) Pane \<times> ('c, 's) world)" where
  "Split orientation dflt focused prof ctl (Pane m fc sc) w =
     (if \<not> IsLeaf (Pane m fc sc) then
        (case fc of
           None \<Rightarrow> Inl NullDereference
         | Some f \<Rightarrow>
             if HasFocusedChild focused f then
               (case Split orientation dflt focused prof ctl f w of
                  Inl e \<Rightarrow> Inl e
                | Inr (f', w') \<Rightarrow> Inr (Pane m (Some f') sc, w'))
             else
               (case sc of
                  None \<Rightarrow> Inl NullDereference
                | Some s \<Rightarrow>
                    if HasFocusedChild focused s then
                      (case Split orientation dflt focused prof ctl s w of
                         Inl e \<Rightarrow> Inl e
                       | Inr (s', w') \<Rightarrow> Inr (Pane m fc (Some s'), w'))
                    else Inr (Pane m fc sc, w)))
      else SplitLeaf orientation dflt prof ctl (Pane m fc sc) w)"

definition SplitVertical ::
  "bool \<Rightarrow> ('c \<Rightarrow> bool) \<Rightarrow> 'g \<Rightarrow> 'c option \<Rightarrow> ('c, 'g) Pane \<Rightarrow> ('c, 's) world
     \<Rightarrow> error + (('c, 'g) Pane \<times> ('c, 's) world)" where
  "SplitVertical = Split Vertical"

definition SplitHorizontal ::
  "bool \<Rightarrow> ('c \<Rightarrow> bool) \<Rightarrow> 'g \<Rightarrow> 'c option \<Rightarrow> ('c, 'g) Pane \<Rightarrow> ('c, 's) world
     \<Rightarrow> error + (('c, 'g) Pane \<times> ('c, 's) world)" where
  "SplitHorizontal = Split Horizontal"

subsection \<open>Session termination\<close>

text \<open>
  A child pane is held by its parent's \<open>shared_ptr\<close> and by nothing else in this file,
  and the lambdas capture the raw \<open>this\<close>. So the panes that are alive are the ones the
  tree owns, and a delegate whose pane has left the tree runs on a released object.
\<close>

fun lookup_pane :: "addr \<Rightarrow> ('c, 'g) Pane \<Rightarrow> ('c, 'g) Pane option" where
  "lookup_pane a (Pane m fc sc) =
     (if self m = a then Some (Pane m fc sc)
      else
        (case (case fc of None \<Rightarrow> None | Some f \<Rightarrow> lookup_pane a f) of
           Some x \<Rightarrow> Some x
         | None \<Rightarrow> (case sc of None \<Rightarrow> None | Some s \<Rightarrow> lookup_pane a s)))"

text \<open>
  The lambda of \<open>_AddControlToRoot\<close>, registered by pane \<open>a\<close> on control \<open>c\<close>: the
  panes whose \<open>_closedHandlers\<close> it invokes. \<open>closeOnExit c\<close> stands for
  \<open>c.CloseOnExit()\<close>.
\<close>

definition ConnectionClosed_lambda :: "('c \<Rightarrow> bool) \<Rightarrow> 'c \<Rightarrow> addr \<Rightarrow> addr list" where
  "ConnectionClosed_lambda closeOnExit c a = (if closeOnExit c then [a] else [])"

text \<open>Control \<open>c\<close> raises \<open>ConnectionClosed\<close>: the \<open>Closed\<close> events fired, in order.\<close>

definition Closed_fired :: "('c \<Rightarrow> bool) \<Rightarrow> ('c, 's) world \<Rightarrow> 'c \<Rightarrow> addr list" where
  "Closed_fired closeOnExit w c =
     concat (map (\<lambda>(t, a). ConnectionClosed_lambda closeOnExit c a) (ConnectionClosed w c))"

text \<open>
  The delegates of a \<open>Closed\<close> event, run in order. Each is a lambda of
  \<open>_SetupChildCloseHandlers\<close>: it reads \<open>_root\<close> of the subscriber it captured and
  queues \<open>_CloseChild(closeFirst)\<close> on it with \<open>RunAsync\<close>.
\<close>

fun run_closedHandlers ::
  "('c, 'g) Pane \<Rightarrow> (event_token \<times> addr \<times> bool) list \<Rightarrow> error + (addr \<times> bool) list" where
  "run_closedHandlers root [] = Inr []"
| "run_closedHandlers root ((t, a, closeFirst) # hs) =
     (case lookup_pane a root of
        None \<Rightarrow> Inl DanglingThis
      | Some subscriber \<Rightarrow>
          (case run_closedHandlers root hs of
             Inl e \<Rightarrow> Inl e
           | Inr q \<Rightarrow> Inr ((a, closeFirst) # q)))"

text \<open>\<open>_closedHandlers()\<close> called on the pane at address \<open>a\<close>.\<close>

definition raise_Closed :: "('c, 'g) Pane \<Rightarrow> addr \<Rightarrow> error + (addr \<times> bool) list" where
  "raise_Closed root a =
     (case lookup_pane a root of
        None \<Rightarrow> Inl DanglingThis
      | Some p \<Rightarrow> run_closedHandlers root (closedHandlers (members p)))"

fun raise_Closed_all :: "('c, 'g) Pane \<Rightarrow> addr list \<Rightarrow> error + (addr \<times> bool) list" where
  "raise_Closed_all root [] = Inr []"
| "raise_Closed_all root (a # as) =
     (case raise_Closed root a of
        Inl e \<Rightarrow> Inl e
      | Inr q \<Rightarrow>
          (case raise_Closed_all root as of
             Inl e \<Rightarrow> Inl e
           | Inr q' \<Rightarrow> Inr (q @ q')))"

text \<open>A queued task: \<open>_CloseChild(closeFirst)\<close> on the pane at address \<open>a\<close>.\<close>

fun CloseChild_at ::
  "addr \<Rightarrow> bool \<Rightarrow> ('c, 'g) Pane \<Rightarrow> ('c, 's) world \<Rightarrow> error + (('c, 'g) Pane \<times> ('c, 's) world)" where
  "CloseChild_at a closeFirst (Pane m fc sc) w =
     (if self m = a then CloseChild closeFirst (Pane m fc sc) w
      else if (case fc of None \<Rightarrow> False | Some f \<Rightarrow> lookup_pane a f \<noteq> None) then
        (case fc of
           None \<Rightarrow> Inl DanglingThis
         | Some f \<Rightarrow>
             (case CloseChild_at a closeFirst f w of
                Inl e \<Rightarrow> Inl e
              | Inr (f', w') \<Rightarrow> Inr (Pane m (Some f') sc, w')))
      else
        (case sc of
           None \<Rightarrow> Inl DanglingThis
         | Some s \<Rightarrow>
             (case CloseChild_at a closeFirst s w of
                Inl e \<Rightarrow> Inl e
              | Inr (s', w') \<Rightarrow> Inr (Pane m fc (Some s'), w'))))"

fun run_tasks ::
  "(addr \<times> bool) list \<Rightarrow> ('c, 'g) Pane \<Rightarrow> ('c, 's) world \<Rightarrow> error + (('c, 'g) Pane \<times> ('c, 's) world)" where
  "run_tasks [] root w = Inr (root, w)"
| "run_tasks ((a, closeFirst) # q) root w =
     (case CloseChild_at a closeFirst root w of
        Inl e \<Rightarrow> Inl e
      | Inr (root', w') \<Rightarrow> run_tasks q root' w')"

text \<open>
  The session of control \<open>c\<close> terminates: the control raises \<open>ConnectionClosed\<close>, the
  \<open>Closed\<close> events fire, and the tasks they queued run on the UI thread.
\<close>

definition session_closed ::
  "('c \<Rightarrow> bool) \<Rightarrow> 'c \<Rightarrow> ('c, 'g) Pane \<Rightarrow> ('c, 's) world \<Rightarrow> error + (('c, 'g) Pane \<times> ('c, 's) world)" where
  "session_closed closeOnExit c root w =
     (case raise_Closed_all root (Closed_fired closeOnExit w c) of
        Inl e \<Rightarrow> Inl e
      | Inr q \<Rightarrow> run_tasks q root w)"

subsection \<open>The tree seen from outside\<close>

fun leaves :: "('c, 'g) Pane \<Rightarrow> ('c, 'g) Pane list" where
  "leaves (Pane m fc sc) =
     (if IsLeaf (Pane m fc sc) then [Pane m fc sc]
      else (case fc of None \<Rightarrow> [] | Some f \<Rightarrow> leaves f) @
           (case sc of None \<Rightarrow> [] | Some s \<Rightarrow> leaves s))"

fun nodes :: "('c, 'g) Pane \<Rightarrow> ('c, 'g) Pane list" where
  "nodes (Pane m fc sc) =
     Pane m fc sc # (case fc of None \<Rightarrow> [] | Some f \<Rightarrow> nodes f) @
                    (case sc of None \<Rightarrow> [] | Some s \<Rightarrow> nodes s)"

definition focusedLeaves :: "('c, 'g) Pane \<Rightarrow> ('c, 'g) Pane list" where
  "focusedLeaves t = filter WasLastFocused (leaves t)"

text \<open>The controls of the leaves that hold profile \<open>prof\<close>, first child first.\<close>

definition controlsOfProfile :: "'g \<Rightarrow> ('c, 'g) Pane \<Rightarrow> 'c list" where
  "controlsOfProfile prof t =
     concat (map (\<lambda>l. if profile (members l) = Some prof
                       then (case control (members l) of None \<Rightarrow> [] | Some c \<Rightarrow> [c])
                       else [])
                 (leaves t))"

text \<open>
  Leaf and split are exclusive at a node: the three readings of "leaf" of the data model
  agree, a leaf has its profile, and a split owns both children.
\<close>

definition exclusive :: "('c, 'g) Pane \<Rightarrow> bool" where
  "exclusive p =
     ((IsLeaf p \<longleftrightarrow> firstChild p = None \<and> secondChild p = None) \<and>
      (IsLeaf p \<longleftrightarrow> control (members p) \<noteq> None) \<and>
      (IsLeaf p \<longleftrightarrow> profile (members p) \<noteq> None) \<and>
      (IsLeaf p \<or> (firstChild p \<noteq> None \<and> secondChild p \<noteq> None)))"

fun wf :: "('c, 'g) Pane \<Rightarrow> bool" where
  "wf (Pane m fc sc) =
     (exclusive (Pane m fc sc) \<and>
      (case fc of None \<Rightarrow> True | Some f \<Rightarrow> wf f) \<and>
      (case sc of None \<Rightarrow> True | Some s \<Rightarrow> wf s))"

text \<open>No split node carries the focus flag.\<close>

fun splitsUnfocused :: "('c, 'g) Pane \<Rightarrow> bool" where
  "splitsUnfocused (Pane m fc sc) =
     ((IsLeaf (Pane m fc sc) \<or> \<not> lastFocused m) \<and>
      (case fc of None \<Rightarrow> True | Some f \<Rightarrow> splitsUnfocused f) \<and>
      (case sc of None \<Rightarrow> True | Some s \<Rightarrow> splitsUnfocused s))"

text \<open>The number of leaves whose flag is set, and of leaves whose control reports focus.\<close>

definition nFocused :: "('c, 'g) Pane \<Rightarrow> nat" where
  "nFocused t = length (focusedLeaves t)"

definition nLive :: "('c \<Rightarrow> bool) \<Rightarrow> ('c, 'g) Pane \<Rightarrow> nat" where
  "nLive focused t =
     length (filter (\<lambda>l. case control (members l) of None \<Rightarrow> False | Some c \<Rightarrow> focused c)
               (leaves t))"

text \<open>
  At most one leaf of the tree has a control that reports focus: what the UI answers when
  every leaf has a control of its own and one element holds the input focus.
  \<open>anyFocus\<close> puts no condition on the answers.
\<close>

definition exclusiveFocus :: "('c \<Rightarrow> bool) \<Rightarrow> ('c, 'g) Pane \<Rightarrow> bool" where
  "exclusiveFocus focused t = (nLive focused t \<le> 1)"

definition anyFocus :: "('c \<Rightarrow> bool) \<Rightarrow> ('c, 'g) Pane \<Rightarrow> bool" where
  "anyFocus focused t = True"

subsection \<open>Reachable states\<close>

text \<open>
  The states a tab can bring its pane tree into: the root is constructed around a control,
  and then the public operations and the queued \<open>_CloseChild\<close> tasks run in any order
  and with any arguments. \<open>d\<close> is the constructor's default flag; \<open>ui\<close> says which
  answers the UI can give to \<open>CheckFocus\<close> for a given tree.
\<close>

inductive reachable ::
  "bool \<Rightarrow> (('c \<Rightarrow> bool) \<Rightarrow> ('c, 'g) Pane \<Rightarrow> bool) \<Rightarrow> ('c, 'g) Pane \<Rightarrow> ('c, 's) world \<Rightarrow> bool"
  for d :: bool and ui :: "('c \<Rightarrow> bool) \<Rightarrow> ('c, 'g) Pane \<Rightarrow> bool" where
  root:
    "make_shared_Pane g ctl lf w0 = Inr (t, w) \<Longrightarrow> reachable d ui t w"
| splitVertical:
    "reachable d ui t w \<Longrightarrow> SplitVertical d focused g ctl t w = Inr (t', w') \<Longrightarrow>
     reachable d ui t' w'"
| splitHorizontal:
    "reachable d ui t w \<Longrightarrow> SplitHorizontal d focused g ctl t w = Inr (t', w') \<Longrightarrow>
     reachable d ui t' w'"
| closeChild:
    "reachable d ui t w \<Longrightarrow> CloseChild_at a closeFirst t w = Inr (t', w') \<Longrightarrow>
     reachable d ui t' w'"
| checkFocus:
    "reachable d ui t w \<Longrightarrow> ui focused t \<Longrightarrow> CheckFocus focused t = Inr t' \<Longrightarrow>
     reachable d ui t' w"
| checkUpdateSettings:
    "reachable d ui t w \<Longrightarrow> CheckUpdateSettings settings g t w = Inr (t', w') \<Longrightarrow>
     reachable d ui t' w'"

subsection \<open>Example panes\<close>

text \<open>Concrete panes over natural numbers, on which the theorems below are tried.\<close>

definition ex_leaf :: "addr \<Rightarrow> nat \<Rightarrow> nat \<Rightarrow> bool \<Rightarrow> (nat, nat) Pane" where
  "ex_leaf a c g lf =
     Pane \<lparr>self = a, control = Some c, lastFocused = lf, profile = Some g,
           splitState = SplitState_None, connectionClosedToken = 1, firstClosedToken = 0,
           secondClosedToken = 0, closedHandlers = []\<rparr> None None"

definition ex_split ::
  "addr \<Rightarrow> SplitState \<Rightarrow> (nat, nat) Pane \<Rightarrow> (nat, nat) Pane \<Rightarrow> (nat, nat) Pane" where
  "ex_split a orientation f s =
     Pane \<lparr>self = a, control = None, lastFocused = False, profile = None,
           splitState = orientation, connectionClosedToken = 1, firstClosedToken = 1,
           secondClosedToken = 1, closedHandlers = []\<rparr>
       (Some (Pane ((members f)\<lparr>closedHandlers := [(1, a, True)]\<rparr>)
                (firstChild f) (secondChild f)))
       (Some (Pane ((members s)\<lparr>closedHandlers := [(1, a, False)]\<rparr>)
                (firstChild s) (secondChild s)))"

definition ex_pair :: "(nat, nat) Pane" where
  "ex_pair = ex_split 0 Vertical (ex_leaf 1 10 20 True) (ex_leaf 2 11 21 False)"

definition ex_three :: "(nat, nat) Pane" where
  "ex_three = ex_split 0 Vertical (ex_leaf 1 10 20 False)
                (ex_split 2 Horizontal (ex_leaf 3 11 21 True) (ex_leaf 4 12 20 False))"

definition ex_world :: "(nat, nat) world" where
  "ex_world = \<lparr>ConnectionClosed = (\<lambda>c. []), calls = [], heapNext = 100\<rparr>"

text \<open>
  A session of a tab: the root pane around control 10, a vertical split while 10 has
  focus, a horizontal split while the new control 11 has focus, then the session of
  control 10 ends, then the session of control 11 ends.
\<close>

definition andThen :: "error + 'a \<Rightarrow> ('a \<Rightarrow> error + 'b) \<Rightarrow> error + 'b" where
  "andThen x f = (case x of Inl e \<Rightarrow> Inl e | Inr a \<Rightarrow> f a)"

definition ex_s0 :: "error + ((nat, nat) Pane \<times> (nat, nat) world)" where
  "ex_s0 = make_shared_Pane 20 (Some 10) True ex_world"

definition ex_s1 :: "error + ((nat, nat) Pane \<times> (nat, nat) world)" where
  "ex_s1 = andThen ex_s0 (\<lambda>(t, w). SplitVertical lastFocused_default (\<lambda>c. c = 10) 21 (Some 11) t w)"

definition ex_s2 :: "error + ((nat, nat) Pane \<times> (nat, nat) world)" where
  "ex_s2 = andThen ex_s1 (\<lambda>(t, w). SplitHorizontal lastFocused_default (\<lambda>c. c = 11) 22 (Some 12) t w)"

text \<open>
  After the two splits \<open>CheckFocus\<close> runs while control 12 alone reports focus; or,
  after the first split, while every control reports focus.
\<close>

definition ex_focus_one :: "error + ((nat, nat) Pane \<times> (nat, nat) world)" where
  "ex_focus_one = andThen ex_s2 (\<lambda>(t, w). andThen (CheckFocus (\<lambda>c. c = 12) t) (\<lambda>t'. Inr (t', w)))"

definition ex_focus_all :: "error + ((nat, nat) Pane \<times> (nat, nat) world)" where
  "ex_focus_all = andThen ex_s1 (\<lambda>(t, w). andThen (CheckFocus (\<lambda>c. True) t) (\<lambda>t'. Inr (t', w)))"

definition ex_s3 :: "error + ((nat, nat) Pane \<times> (nat, nat) world)" where
  "ex_s3 = andThen ex_s2 (\<lambda>(t, w). session_closed (\<lambda>c. True) 10 t w)"

definition ex_s4 :: "error + ((nat, nat) Pane \<times> (nat, nat) world)" where
  "ex_s4 = andThen ex_s3 (\<lambda>(t, w). session_closed (\<lambda>c. True) 11 t w)"

section \<open>Properties\<close>

subsection \<open>Well-formed trees\<close>

lemma wf_leaf_members:
  "wf t \<Longrightarrow> l \<in> set (leaves t) \<Longrightarrow>
     (\<exists>c. control (members l) = Some c) \<and> (\<exists>g. profile (members l) = Some g) \<and> IsLeaf l"
proof (induction t rule: leaves.induct)
  case (1 m fc sc)
  show ?case
  proof (cases "IsLeaf (Pane m fc sc)")
    case True
    with "1.prems" show ?thesis by (auto simp: exclusive_def)
  next
    case False
    with "1.prems" "1.IH" show ?thesis
      by (auto split: option.splits)
  qed
qed

lemma wf_split_children:
  "wf (Pane m fc sc) \<Longrightarrow> \<not> IsLeaf (Pane m fc sc) \<Longrightarrow>
     \<exists>f s. fc = Some f \<and> sc = Some s \<and> wf f \<and> wf s"
  by (auto simp: exclusive_def split: option.splits)

lemma focusedLeaves_head_leaf:
  "focusedLeaves t = l # ls \<Longrightarrow> l \<in> set (leaves t)"
  unfolding focusedLeaves_def
  by (metis filter_is_subset list.set_intros(1) subsetD)

subsection \<open>The last-focused queries\<close>

lemma GetLastFocusedTerminalControl_wf:
  "wf t \<Longrightarrow> GetLastFocusedTerminalControl t =
     Inr (case focusedLeaves t of [] \<Rightarrow> None | l # _ \<Rightarrow> control (members l))"
proof (induction t rule: GetLastFocusedTerminalControl.induct)
  case (1 m fc sc)
  show ?case
  proof (cases "IsLeaf (Pane m fc sc)")
    case True
    then show ?thesis by (simp add: focusedLeaves_def WasLastFocused_def)
  next
    case False
    from wf_split_children[OF "1.prems" False] obtain f s
      where fs: "fc = Some f" "sc = Some s" "wf f" "wf s" by blast
    have F: "GetLastFocusedTerminalControl f =
      Inr (case focusedLeaves f of [] \<Rightarrow> None | l # _ \<Rightarrow> control (members l))"
      using "1.IH"(1)[OF False fs(1) fs(3)] .
    show ?thesis
    proof (cases "focusedLeaves f")
      case Nil
      with F have Fn: "GetLastFocusedTerminalControl f = Inr None" by simp
      have S: "GetLastFocusedTerminalControl s =
        Inr (case focusedLeaves s of [] \<Rightarrow> None | l # _ \<Rightarrow> control (members l))"
        using "1.IH"(2)[OF False fs(1) Fn refl fs(2) fs(4)] .
      from Nil False fs Fn S show ?thesis
        by (simp add: focusedLeaves_def)
    next
      case (Cons l ls)
      from wf_leaf_members[OF fs(3) focusedLeaves_head_leaf[OF Cons]]
      obtain c where c: "control (members l) = Some c" by blast
      from Cons F c have "GetLastFocusedTerminalControl f = Inr (Some c)" by simp
      with Cons False fs c show ?thesis by (simp add: focusedLeaves_def)
    qed
  qed
qed

lemma GetLastFocusedProfile_wf:
  "wf t \<Longrightarrow> GetLastFocusedProfile t =
     Inr (case focusedLeaves t of [] \<Rightarrow> None | l # _ \<Rightarrow> profile (members l))"
proof (induction t rule: GetLastFocusedProfile.induct)
  case (1 m fc sc)
  show ?case
  proof (cases "IsLeaf (Pane m fc sc)")
    case True
    then show ?thesis by (simp add: focusedLeaves_def WasLastFocused_def)
  next
    case False
    from wf_split_children[OF "1.prems" False] obtain f s
      where fs: "fc = Some f" "sc = Some s" "wf f" "wf s" by blast
    have F: "GetLastFocusedProfile f =
      Inr (case focusedLeaves f of [] \<Rightarrow> None | l # _ \<Rightarrow> profile (members l))"
      using "1.IH"(1)[OF False fs(1) fs(3)] .
    show ?thesis
    proof (cases "focusedLeaves f")
      case Nil
      with F have Fn: "GetLastFocusedProfile f = Inr None" by simp
      have S: "GetLastFocusedProfile s =
        Inr (case focusedLeaves s of [] \<Rightarrow> None | l # _ \<Rightarrow> profile (members l))"
        using "1.IH"(2)[OF False fs(1) Fn refl fs(2) fs(4)] .
      from Nil False fs Fn S show ?thesis
        by (simp add: focusedLeaves_def)
    next
      case (Cons l ls)
      from wf_leaf_members[OF fs(3) focusedLeaves_head_leaf[OF Cons]]
      obtain g where g: "profile (members l) = Some g" by blast
      from Cons F g have "GetLastFocusedProfile f = Inr (Some g)" by simp
      with Cons False fs g show ?thesis by (simp add: focusedLeaves_def)
    qed
  qed
qed

text \<open>
  Claim C9. On a well-formed tree, \<open>GetLastFocusedTerminalControl\<close> returns the control,
  and \<open>GetLastFocusedProfile\<close> the profile, of the first leaf in first-child-first order
  whose \<open>_lastFocused\<close> is set, and none when no leaf has it set. Both are functions
  of the tree alone and return no tree: they are deterministic and change nothing.
\<close>

theorem GetLastFocused_first_flagged_leaf:
  assumes "wf t"
  shows "GetLastFocusedTerminalControl t =
           Inr (case focusedLeaves t of [] \<Rightarrow> None | l # _ \<Rightarrow> control (members l))
       \<and> GetLastFocusedProfile t =
           Inr (case focusedLeaves t of [] \<Rightarrow> None | l # _ \<Rightarrow> profile (members l))"
  using assms GetLastFocusedTerminalControl_wf GetLastFocusedProfile_wf by blast

theorem GetLastFocused_first_flagged_leaf_witness:
  "wf (ex_split 0 Vertical (ex_leaf 1 10 20 False)
         (ex_split 2 Horizontal (ex_leaf 3 11 21 True) (ex_leaf 4 12 22 True)))
   \<and> GetLastFocusedTerminalControl (ex_split 0 Vertical (ex_leaf 1 10 20 False)
         (ex_split 2 Horizontal (ex_leaf 3 11 21 True) (ex_leaf 4 12 22 True))) = Inr (Some 11)
   \<and> GetLastFocusedProfile (ex_split 0 Vertical (ex_leaf 1 10 20 False)
         (ex_split 2 Horizontal (ex_leaf 3 11 21 True) (ex_leaf 4 12 22 True))) = Inr (Some 21)"
proof -
  have w: "wf (ex_split 0 Vertical (ex_leaf 1 10 20 False)
         (ex_split 2 Horizontal (ex_leaf 3 11 21 True) (ex_leaf 4 12 22 True)))"
    by (simp add: ex_split_def ex_leaf_def exclusive_def IsLeaf_def)
  show ?thesis
    using w GetLastFocused_first_flagged_leaf[OF w]
    by (simp add: ex_split_def ex_leaf_def IsLeaf_def focusedLeaves_def WasLastFocused_def)
qed

subsection \<open>Building blocks\<close>

lemma fresh_token_Nil [simp]: "fresh_token [] = 1"
  by (simp add: fresh_token_def)

lemma make_shared_Pane_Some:
  "make_shared_Pane g (Some c) lf w =
     Inr (Pane \<lparr>self = heapNext w, control = Some c, lastFocused = lf, profile = Some g,
                 splitState = SplitState_None,
                 connectionClosedToken = fresh_token (ConnectionClosed w c),
                 firstClosedToken = 0, secondClosedToken = 0, closedHandlers = []\<rparr> None None,
          w\<lparr>heapNext := Suc (heapNext w),
            ConnectionClosed := (ConnectionClosed w)
              (c := ConnectionClosed w c @ [(fresh_token (ConnectionClosed w c), heapNext w)])\<rparr>)"
  by (simp add: make_shared_Pane_def AddControlToRoot_def event_add_def)

lemma SetupChildCloseHandlers_Some:
  "SetupChildCloseHandlers (Pane m (Some f) (Some s)) =
     Inr (Pane (m\<lparr>firstClosedToken := fresh_token (closedHandlers (members f)),
                   secondClosedToken := fresh_token (closedHandlers (members s))\<rparr>)
            (Some (Pane ((members f)\<lparr>closedHandlers := closedHandlers (members f) @
                      [(fresh_token (closedHandlers (members f)), self m, True)]\<rparr>)
                    (firstChild f) (secondChild f)))
            (Some (Pane ((members s)\<lparr>closedHandlers := closedHandlers (members s) @
                      [(fresh_token (closedHandlers (members s)), self m, False)]\<rparr>)
                    (firstChild s) (secondChild s))))"
  by (simp add: SetupChildCloseHandlers_def event_add_def)

lemma SplitLeaf_shape:
  assumes "control (members p) = Some c0" and "profile (members p) = Some g0"
  shows "\<exists>f s w'.
    SplitLeaf orientation d g (Some c) p w =
      Inr (Pane ((members p)\<lparr>splitState := orientation, profile := None, control := None,
                   firstClosedToken := 1, secondClosedToken := 1, lastFocused := False\<rparr>)
             (Some f) (Some s), w')
    \<and> firstChild f = None \<and> secondChild f = None \<and> splitState (members f) = SplitState_None
    \<and> control (members f) = Some c0 \<and> profile (members f) = Some g0
    \<and> lastFocused (members f) = d \<and> self (members f) = heapNext w
    \<and> closedHandlers (members f) = [(1, self (members p), True)]
    \<and> firstChild s = None \<and> secondChild s = None \<and> splitState (members s) = SplitState_None
    \<and> control (members s) = Some c \<and> profile (members s) = Some g
    \<and> lastFocused (members s) = d \<and> self (members s) = Suc (heapNext w)
    \<and> closedHandlers (members s) = [(1, self (members p), False)]
    \<and> calls w' = calls w \<and> heapNext w' = Suc (Suc (heapNext w))"
  using assms
  by (simp add: SplitLeaf_def make_shared_Pane_Some SetupChildCloseHandlers_Some Let_def)

lemma Split_leaf: "IsLeaf p \<Longrightarrow> Split orientation d focused g c p w = SplitLeaf orientation d g c p w"
  by (cases p) simp


lemma CloseChild_leaf_remaining:
  assumes "firstChild p = Some f" and "secondChild p = Some s"
    and "IsLeaf (if closeFirst then s else f)"
    and "control (members (if closeFirst then s else f)) = Some c"
  shows "\<exists>tok. CloseChild closeFirst p w =
     Inr (Pane ((members p)\<lparr>control := Some c,
                   profile := profile (members (if closeFirst then s else f)),
                   lastFocused := (lastFocused (members f) \<or> lastFocused (members s)),
                   connectionClosedToken := tok,
                   splitState := SplitState_None\<rparr>) None None,
          w\<lparr>ConnectionClosed := (ConnectionClosed w)
                 (c := ConnectionClosed w c @ [(tok, self (members p))]),
            calls := calls w @ (if lastFocused (members f) \<or> lastFocused (members s)
                                 then [Focus c] else [])\<rparr>)"
  using assms
  by (auto simp: CloseChild_def AddControlToRoot_def event_add_def Let_def)

lemma CloseChild_split_remaining:
  assumes "firstChild p = Some f" and "secondChild p = Some s"
    and "\<not> IsLeaf (if closeFirst then s else f)"
    and "firstChild (if closeFirst then s else f) = Some f2"
    and "secondChild (if closeFirst then s else f) = Some s2"
  shows "CloseChild closeFirst p w =
     Inr (Pane ((members p)\<lparr>splitState := splitState (members (if closeFirst then s else f)),
                   firstClosedToken := fresh_token (closedHandlers (members f2)),
                   secondClosedToken := fresh_token (closedHandlers (members s2))\<rparr>)
            (Some (Pane ((members f2)\<lparr>closedHandlers := closedHandlers (members f2) @
                      [(fresh_token (closedHandlers (members f2)), self (members p), True)]\<rparr>)
                    (firstChild f2) (secondChild f2)))
            (Some (Pane ((members s2)\<lparr>closedHandlers := closedHandlers (members s2) @
                      [(fresh_token (closedHandlers (members s2)), self (members p), False)]\<rparr>)
                    (firstChild s2) (secondChild s2))), w)"
  using assms
  by (auto simp: CloseChild_def Closed_revoke_def SetupChildCloseHandlers_Some Let_def IsLeaf_def)

subsection \<open>Well-formedness is preserved\<close>

lemma wf_handlers:
  "wf (Pane ((members p)\<lparr>closedHandlers := hs\<rparr>) (firstChild p) (secondChild p)) = wf p"
  by (cases p) (simp add: exclusive_def IsLeaf_def)

lemma wf_make_shared_Pane:
  "make_shared_Pane g ctl lf w = Inr (p, w') \<Longrightarrow> wf p"
  by (cases ctl) (auto simp: make_shared_Pane_def AddControlToRoot_def event_add_def
      exclusive_def IsLeaf_def)

lemma wf_splitI:
  "splitState m \<noteq> SplitState_None \<Longrightarrow> control m = None \<Longrightarrow> profile m = None \<Longrightarrow>
   wf f \<Longrightarrow> wf s \<Longrightarrow> wf (Pane m (Some f) (Some s))"
  by (simp add: exclusive_def IsLeaf_def)

lemma wf_split_members:
  "wf (Pane m fc sc) \<Longrightarrow> \<not> IsLeaf (Pane m fc sc) \<Longrightarrow>
     splitState m \<noteq> SplitState_None \<and> control m = None \<and> profile m = None"
  by (auto simp: exclusive_def IsLeaf_def)

lemma make_shared_Pane_None: "make_shared_Pane g None lf w = Inl NullDereference"
  by (simp add: make_shared_Pane_def AddControlToRoot_def)

lemma wf_SplitLeaf:
  assumes "wf p" and "IsLeaf p" and "orientation \<noteq> SplitState_None"
    and "SplitLeaf orientation d g ctl p w = Inr (p', w')"
  shows "wf p'"
proof -
  obtain m fc sc where p: "p = Pane m fc sc" by (cases p)
  from assms(1,2) p obtain c0 g0 where m: "control m = Some c0" "profile m = Some g0"
    by (auto simp: exclusive_def)
  from assms(4) obtain c where c: "ctl = Some c"
    using m p by (cases ctl) (auto simp: SplitLeaf_def make_shared_Pane_Some make_shared_Pane_None
        Let_def)
  from SplitLeaf_shape[of p c0 g0 orientation d g c w] m p obtain f s w1 where
    R: "SplitLeaf orientation d g (Some c) p w =
      Inr (Pane ((members p)\<lparr>splitState := orientation, profile := None, control := None,
                   firstClosedToken := 1, secondClosedToken := 1, lastFocused := False\<rparr>)
             (Some f) (Some s), w1)"
    and F: "firstChild f = None" "secondChild f = None" "splitState (members f) = SplitState_None"
      "control (members f) = Some c0" "profile (members f) = Some g0"
    and S: "firstChild s = None" "secondChild s = None" "splitState (members s) = SplitState_None"
      "control (members s) = Some c" "profile (members s) = Some g"
    by auto
  have "wf f" using F by (cases f) (simp add: exclusive_def IsLeaf_def)
  moreover have "wf s" using S by (cases s) (simp add: exclusive_def IsLeaf_def)
  ultimately show ?thesis
    using R assms(3,4) c by (auto simp: exclusive_def IsLeaf_def)
qed

lemma wf_Split:
  "wf t \<Longrightarrow> orientation \<noteq> SplitState_None \<Longrightarrow>
   Split orientation d focused g ctl t w = Inr (t', w') \<Longrightarrow> wf t'"
proof (induction orientation d focused g ctl t w arbitrary: t' w' rule: Split.induct)
  case (1 orientation d focused g ctl m fc sc w)
  show ?case
  proof (cases "IsLeaf (Pane m fc sc)")
    case True
    with "1.prems"(3) have "SplitLeaf orientation d g ctl (Pane m fc sc) w = Inr (t', w')"
      by simp
    from wf_SplitLeaf[OF "1.prems"(1) True "1.prems"(2) this] show ?thesis .
  next
    case False
    from wf_split_children[OF "1.prems"(1) False] obtain f s
      where fs: "fc = Some f" "sc = Some s" "wf f" "wf s" by blast
    from "1.prems"(1) have ex: "exclusive (Pane m fc sc)" by simp
    show ?thesis
    proof (cases "HasFocusedChild focused f")
      case True
      with "1.prems"(3) False fs obtain f' where
        f': "Split orientation d focused g ctl f w = Inr (f', w')" "t' = Pane m (Some f') sc"
        by (auto split: sum.splits)
      from "1.IH"(1)[OF False fs(1) True fs(3) "1.prems"(2) f'(1)] have "wf f'" .
      with f'(2) fs wf_split_members[OF "1.prems"(1) False] show ?thesis
        by (auto simp: exclusive_def IsLeaf_def)
    next
      case nf: False
      show ?thesis
      proof (cases "HasFocusedChild focused s")
        case True
        with "1.prems"(3) False fs nf obtain s' where
          s': "Split orientation d focused g ctl s w = Inr (s', w')" "t' = Pane m fc (Some s')"
          by (auto split: sum.splits)
        from "1.IH"(2)[OF False fs(1) nf fs(2) True fs(4) "1.prems"(2) s'(1)] have "wf s'" .
        with s'(2) fs wf_split_members[OF "1.prems"(1) \<open>\<not> IsLeaf (Pane m fc sc)\<close>]
        show ?thesis by (auto simp: exclusive_def IsLeaf_def)
      next
        case False
        with "1.prems" nf fs \<open>\<not> IsLeaf (Pane m fc sc)\<close> show ?thesis by auto
      qed
    qed
  qed
qed

lemma wf_CloseChild:
  assumes "wf p" and "CloseChild closeFirst p w = Inr (p', w')"
  shows "wf p'"
proof -
  obtain m fc sc where p: "p = Pane m fc sc" by (cases p)
  from assms(2) p obtain f s where fs: "fc = Some f" "sc = Some s"
    by (auto simp: CloseChild_def split: option.splits if_splits)
  with assms(1) p have nl: "\<not> IsLeaf p" and ex: "exclusive p" and wfs: "wf f" "wf s"
    by (auto simp: exclusive_def)
  let ?r = "if closeFirst then s else f"
  have wr: "wf ?r" using wfs by simp
  show ?thesis
  proof (cases "IsLeaf ?r")
    case True
    from wr True obtain c where c: "control (members ?r) = Some c"
      and g: "profile (members ?r) \<noteq> None"
      by (cases ?r) (auto simp: exclusive_def)
    have a: "firstChild p = Some f" "secondChild p = Some s" using p fs by simp_all
    from CloseChild_leaf_remaining[OF a True c, of w] assms(2) g
    show ?thesis by (auto simp: exclusive_def IsLeaf_def)
  next
    case False
    obtain mr fr sr where r: "?r = Pane mr fr sr" by (cases ?r)
    from wf_split_children[of mr fr sr] wr False r obtain f2 s2 where
      c2: "fr = Some f2" "sr = Some s2" "wf f2" "wf s2" by auto
    have a: "firstChild p = Some f" "secondChild p = Some s" using p fs by simp_all
    have b: "firstChild ?r = Some f2" "secondChild ?r = Some s2"
      using r c2 by simp_all
    have w2: "wf (Pane ((members f2)\<lparr>closedHandlers := closedHandlers (members f2) @
                      [(fresh_token (closedHandlers (members f2)), self (members p), True)]\<rparr>)
                    (firstChild f2) (secondChild f2))"
      "wf (Pane ((members s2)\<lparr>closedHandlers := closedHandlers (members s2) @
                      [(fresh_token (closedHandlers (members s2)), self (members p), False)]\<rparr>)
                    (firstChild s2) (secondChild s2))"
      using c2 by (simp_all only: wf_handlers)
    from CloseChild_split_remaining[OF a False b, of w] assms(2)
    have "p' = Pane ((members p)\<lparr>splitState := splitState (members ?r),
                   firstClosedToken := fresh_token (closedHandlers (members f2)),
                   secondClosedToken := fresh_token (closedHandlers (members s2))\<rparr>)
            (Some (Pane ((members f2)\<lparr>closedHandlers := closedHandlers (members f2) @
                      [(fresh_token (closedHandlers (members f2)), self (members p), True)]\<rparr>)
                    (firstChild f2) (secondChild f2)))
            (Some (Pane ((members s2)\<lparr>closedHandlers := closedHandlers (members s2) @
                      [(fresh_token (closedHandlers (members s2)), self (members p), False)]\<rparr>)
                    (firstChild s2) (secondChild s2)))" by simp
    moreover have "splitState (members ?r) \<noteq> SplitState_None"
      using False by (simp add: IsLeaf_def)
    moreover have "control (members p) = None" "profile (members p) = None"
      using wf_split_members[of m fc sc] assms(1) nl p by simp_all
    ultimately show ?thesis using w2
      by (auto simp: exclusive_def IsLeaf_def)
  qed
qed

lemma wf_CloseChild_at:
  "wf t \<Longrightarrow> CloseChild_at a closeFirst t w = Inr (t', w') \<Longrightarrow> wf t'"
proof (induction a closeFirst t w arbitrary: t' w' rule: CloseChild_at.induct)
  case (1 a closeFirst m fc sc w)
  from "1.prems"(1) have ex: "exclusive (Pane m fc sc)" by simp
  show ?case
  proof (cases "self m = a")
    case True
    with "1.prems"(2) have "CloseChild closeFirst (Pane m fc sc) w = Inr (t', w')"
      by simp
    from wf_CloseChild[OF "1.prems"(1) this] show ?thesis .
  next
    case False
    show ?thesis
    proof (cases "case fc of None \<Rightarrow> False | Some f \<Rightarrow> lookup_pane a f \<noteq> None")
      case True
      then obtain f where f: "fc = Some f" by (cases fc) auto
      with "1.prems"(2) False True obtain f' where
        f': "CloseChild_at a closeFirst f w = Inr (f', w')" "t' = Pane m (Some f') sc"
        by (auto split: sum.splits)
      from "1.prems"(1) f have "wf f" by simp
      from "1.IH"(1)[OF False True f this f'(1)] have "wf f'" .
      with f'(2) f ex "1.prems"(1) show ?thesis by (auto simp: exclusive_def IsLeaf_def)
    next
      case nf: False
      with "1.prems"(2) False obtain s s' where s: "sc = Some s"
        and s': "CloseChild_at a closeFirst s w = Inr (s', w')" "t' = Pane m fc (Some s')"
        by (auto split: sum.splits option.splits)
      from "1.prems"(1) s have "wf s" by simp
      from "1.IH"(2)[OF False nf s this s'(1)] have "wf s'" .
      with s'(2) s ex "1.prems"(1) show ?thesis by (auto simp: exclusive_def IsLeaf_def)
    qed
  qed
qed

lemma wf_CheckFocus:
  "wf t \<Longrightarrow> CheckFocus focused t = Inr t' \<Longrightarrow> wf t'"
proof (induction focused t arbitrary: t' rule: CheckFocus.induct)
  case (1 focused m fc sc)
  show ?case
  proof (cases "IsLeaf (Pane m fc sc)")
    case True
    with "1.prems" show ?thesis by (auto simp: exclusive_def IsLeaf_def)
  next
    case False
    from wf_split_children[OF "1.prems"(1) False] obtain f s
      where fs: "fc = Some f" "sc = Some s" "wf f" "wf s" by blast
    from "1.prems"(2) False fs obtain f' s' where
      r: "CheckFocus focused f = Inr f'" "CheckFocus focused s = Inr s'"
      "t' = Pane (m\<lparr>lastFocused := False\<rparr>) (Some f') (Some s')"
      by (auto split: sum.splits)
    from "1.IH"(1)[OF False fs(1) fs(3) r(1)] have "wf f'" .
    moreover from "1.IH"(2)[OF False fs(1) r(1) fs(2) fs(4) r(2)] have "wf s'" .
    ultimately show ?thesis using r(3) wf_split_members[OF "1.prems"(1) False]
      by (auto simp: exclusive_def IsLeaf_def)
  qed
qed

subsection \<open>Split on a split node\<close>

text \<open>
  Claim C7. \<open>SplitVertical\<close> and \<open>SplitHorizontal\<close> on a split node whose children
  both report no focused descendant return the tree and the world as they were, with no
  error. Otherwise the call goes into one child only and leaves the other as it was: the
  first child when it reports focus, whatever the second reports, and the second child
  only when the first reports none.
\<close>

theorem Split_no_focus_noop:
  assumes "\<not> IsLeaf (Pane m (Some f) (Some s))"
  shows "(\<not> HasFocusedChild focused f \<and> \<not> HasFocusedChild focused s \<longrightarrow>
            Split orientation d focused g c (Pane m (Some f) (Some s)) w =
              Inr (Pane m (Some f) (Some s), w))
       \<and> (HasFocusedChild focused f \<longrightarrow>
            Split orientation d focused g c (Pane m (Some f) (Some s)) w =
              (case Split orientation d focused g c f w of
                 Inl e \<Rightarrow> Inl e
               | Inr (f', w') \<Rightarrow> Inr (Pane m (Some f') (Some s), w')))
       \<and> (\<not> HasFocusedChild focused f \<and> HasFocusedChild focused s \<longrightarrow>
            Split orientation d focused g c (Pane m (Some f) (Some s)) w =
              (case Split orientation d focused g c s w of
                 Inl e \<Rightarrow> Inl e
               | Inr (s', w') \<Rightarrow> Inr (Pane m (Some f) (Some s'), w')))"
  using assms by simp

theorem Split_no_focus_noop_witness:
  "\<not> IsLeaf ex_pair
   \<and> SplitVertical False (\<lambda>c. False) 22 (Some 12) ex_pair ex_world = Inr (ex_pair, ex_world)
   \<and> SplitHorizontal False (\<lambda>c. False) 22 (Some 12) ex_pair ex_world = Inr (ex_pair, ex_world)
   \<and> (case SplitVertical False (\<lambda>c. True) 22 (Some 12) ex_pair ex_world of
         Inl e \<Rightarrow> None
       | Inr (p', w') \<Rightarrow> Some (map_option IsLeaf (firstChild p'), secondChild p' = secondChild ex_pair))
       = Some (Some False, True)"
proof -
  have n: "\<not> IsLeaf (Pane (members ex_pair) (Some (the (firstChild ex_pair))) (Some (the (secondChild ex_pair))))"
    by (simp add: ex_pair_def ex_split_def IsLeaf_def)
  have e: "Pane (members ex_pair) (Some (the (firstChild ex_pair))) (Some (the (secondChild ex_pair))) = ex_pair"
    by (simp add: ex_pair_def ex_split_def)
  have f: "HasFocusedChild (\<lambda>c. True) (the (firstChild ex_pair))"
    "\<not> HasFocusedChild (\<lambda>c. False) (the (firstChild ex_pair))"
    "\<not> HasFocusedChild (\<lambda>c. False) (the (secondChild ex_pair))"
    by (simp_all add: ex_pair_def ex_split_def ex_leaf_def)
  have s: "Split Vertical False (\<lambda>c. True) 22 (Some 12) (the (firstChild ex_pair)) ex_world
      = SplitLeaf Vertical False 22 (Some 12) (the (firstChild ex_pair)) ex_world"
    by (simp add: ex_pair_def ex_split_def ex_leaf_def IsLeaf_def)
  have l: "\<exists>m f' s' w'. SplitLeaf Vertical False 22 (Some 12) (the (firstChild ex_pair)) ex_world
      = Inr (Pane m f' s', w') \<and> splitState m = Vertical"
    by (simp add: ex_pair_def ex_split_def ex_leaf_def SplitLeaf_def make_shared_Pane_Some
          SetupChildCloseHandlers_Some Let_def)
  show ?thesis
    using n f l
      Split_no_focus_noop[OF n, of "\<lambda>c. False" Vertical False 22 "Some 12" ex_world]
      Split_no_focus_noop[OF n, of "\<lambda>c. False" Horizontal False 22 "Some 12" ex_world]
      Split_no_focus_noop[OF n, of "\<lambda>c. True" Vertical False 22 "Some 12" ex_world]
    unfolding e s SplitVertical_def SplitHorizontal_def
    by (auto simp: IsLeaf_def ex_pair_def ex_split_def)
qed

subsection \<open>Settings propagation\<close>

lemma controlsOfProfile_leaf:
  "IsLeaf (Pane m fc sc) \<Longrightarrow> controlsOfProfile prof (Pane m fc sc) =
     (if profile m = Some prof then (case control m of None \<Rightarrow> [] | Some c \<Rightarrow> [c]) else [])"
  by (simp add: controlsOfProfile_def)

lemma controlsOfProfile_split:
  "\<not> IsLeaf (Pane m (Some f) (Some s)) \<Longrightarrow> controlsOfProfile prof (Pane m (Some f) (Some s)) =
     controlsOfProfile prof f @ controlsOfProfile prof s"
  by (simp add: controlsOfProfile_def)

lemma CheckUpdateSettings_wf:
  "wf t \<Longrightarrow> CheckUpdateSettings settings prof t w =
     Inr (t, w\<lparr>calls := calls w @ map (\<lambda>c. UpdateSettings c settings) (controlsOfProfile prof t)\<rparr>)"
proof (induction settings prof t w rule: CheckUpdateSettings.induct)
  case (1 settings prof m fc sc w)
  show ?case
  proof (cases "IsLeaf (Pane m fc sc)")
    case True
    with "1.prems" obtain c where "control m = Some c"
      by (auto simp: exclusive_def)
    with True show ?thesis
      by (auto simp: controlsOfProfile_leaf)
  next
    case False
    from wf_split_children[OF "1.prems" False] obtain f s
      where fs: "fc = Some f" "sc = Some s" "wf f" "wf s" by blast
    let ?w1 = "w\<lparr>calls := calls w @ map (\<lambda>c. UpdateSettings c settings) (controlsOfProfile prof f)\<rparr>"
    have F: "CheckUpdateSettings settings prof f w = Inr (f, ?w1)"
      using "1.IH"(1)[OF False fs(1) fs(3)] .
    have S: "CheckUpdateSettings settings prof s ?w1 =
       Inr (s, ?w1\<lparr>calls := calls ?w1 @ map (\<lambda>c. UpdateSettings c settings) (controlsOfProfile prof s)\<rparr>)"
      using "1.IH"(2)[OF False fs(1) F refl fs(2) fs(4)] .
    from False fs have C: "controlsOfProfile prof (Pane m fc sc) =
       controlsOfProfile prof f @ controlsOfProfile prof s"
      by (simp add: controlsOfProfile_split)
    show ?thesis
      using False fs F S C by simp
  qed
qed

lemma controlsOfProfile_length:
  "wf t \<Longrightarrow> length (controlsOfProfile prof t) =
     length (filter (\<lambda>l. profile (members l) = Some prof) (leaves t))"
proof (induction t rule: leaves.induct)
  case (1 m fc sc)
  show ?case
  proof (cases "IsLeaf (Pane m fc sc)")
    case True
    with "1.prems" obtain c where "control m = Some c"
      by (auto simp: exclusive_def)
    with True show ?thesis by (simp add: controlsOfProfile_leaf)
  next
    case False
    from wf_split_children[OF "1.prems" False] obtain f s
      where fs: "fc = Some f" "sc = Some s" "wf f" "wf s" by blast
    from False fs "1.IH"(1)[OF False fs(1) fs(3)] "1.IH"(2)[OF False fs(2) fs(4)]
    show ?thesis by (simp add: controlsOfProfile_split)
  qed
qed

lemma controlsOfProfile_none:
  "\<forall>l \<in> set (leaves t). profile (members l) \<noteq> Some prof \<Longrightarrow> controlsOfProfile prof t = []"
  by (simp add: controlsOfProfile_def)

text \<open>
  Claim C8. On a well-formed tree \<open>CheckUpdateSettings\<close> returns the tree it was given,
  node for node, and calls \<open>UpdateSettings\<close> once on the control of every leaf whose
  profile is the given one, first child first, and on no other control: as many calls as
  there are matching leaves. When no leaf matches, the tree and the world are unchanged.
\<close>

theorem CheckUpdateSettings_frame:
  assumes "wf t"
  shows "CheckUpdateSettings settings prof t w =
           Inr (t, w\<lparr>calls := calls w @ map (\<lambda>c. UpdateSettings c settings) (controlsOfProfile prof t)\<rparr>)
       \<and> length (controlsOfProfile prof t) =
           length (filter (\<lambda>l. profile (members l) = Some prof) (leaves t))
       \<and> set (controlsOfProfile prof t) =
           {c. \<exists>l \<in> set (leaves t). profile (members l) = Some prof \<and> control (members l) = Some c}
       \<and> ((\<forall>l \<in> set (leaves t). profile (members l) \<noteq> Some prof) \<longrightarrow>
            CheckUpdateSettings settings prof t w = Inr (t, w))"
proof -
  have A: "CheckUpdateSettings settings prof t w =
           Inr (t, w\<lparr>calls := calls w @ map (\<lambda>c. UpdateSettings c settings) (controlsOfProfile prof t)\<rparr>)"
    using assms by (rule CheckUpdateSettings_wf)
  have B: "length (controlsOfProfile prof t) =
           length (filter (\<lambda>l. profile (members l) = Some prof) (leaves t))"
    using assms by (rule controlsOfProfile_length)
  have C: "set (controlsOfProfile prof t) =
           {c. \<exists>l \<in> set (leaves t). profile (members l) = Some prof \<and> control (members l) = Some c}"
    by (auto simp: controlsOfProfile_def split: if_splits option.splits)
  have D: "(\<forall>l \<in> set (leaves t). profile (members l) \<noteq> Some prof) \<longrightarrow>
            CheckUpdateSettings settings prof t w = Inr (t, w)"
    using A by (simp add: controlsOfProfile_none)
  from A B C D show ?thesis by blast
qed

theorem CheckUpdateSettings_frame_witness:
  "wf ex_three
   \<and> CheckUpdateSettings (7::nat) 20 ex_three ex_world =
       Inr (ex_three, ex_world\<lparr>calls := [UpdateSettings 10 7, UpdateSettings 12 7]\<rparr>)
   \<and> CheckUpdateSettings (7::nat) 99 ex_three ex_world = Inr (ex_three, ex_world)"
proof -
  have w: "wf ex_three"
    by (simp add: ex_three_def ex_split_def ex_leaf_def exclusive_def IsLeaf_def)
  have c: "controlsOfProfile 20 ex_three = [10, 12]" "controlsOfProfile 99 ex_three = []"
    by (simp_all add: controlsOfProfile_def ex_three_def ex_split_def ex_leaf_def IsLeaf_def)
  have e: "calls ex_world = []" by (simp add: ex_world_def)
  show ?thesis
    using w CheckUpdateSettings_frame[OF w, of 7 20 ex_world]
      CheckUpdateSettings_frame[OF w, of 7 99 ex_world]
    by (simp add: c e)
qed

subsection \<open>Splitting a leaf\<close>

text \<open>
  Claim C2, as amended. Splitting a leaf that has its control and profile, with an
  orientation and a new profile and control, makes the node a split of that orientation
  with two leaf children: the first holds the original control and profile, the second
  the new ones. The node's own flag is cleared and both new leaves carry the
  constructor's default flag \<open>d\<close>. So \<open>GetLastFocusedTerminalControl\<close> on the new
  subtree does not depend on whether the original leaf was flagged: it is none when the
  default is false, and the original control when it is true.
\<close>

theorem Split_leaf_structure:
  assumes "IsLeaf p" and "control (members p) = Some c0" and "profile (members p) = Some g0"
    and "orientation \<noteq> SplitState_None"
  shows "\<exists>m' f s w'.
      Split orientation d focused g (Some c) p w = Inr (Pane m' (Some f) (Some s), w')
    \<and> splitState m' = orientation \<and> \<not> IsLeaf (Pane m' (Some f) (Some s))
    \<and> control m' = None \<and> profile m' = None \<and> \<not> lastFocused m'
    \<and> IsLeaf f \<and> firstChild f = None \<and> secondChild f = None
    \<and> control (members f) = Some c0 \<and> profile (members f) = Some g0
    \<and> IsLeaf s \<and> firstChild s = None \<and> secondChild s = None
    \<and> control (members s) = Some c \<and> profile (members s) = Some g
    \<and> lastFocused (members f) = d \<and> lastFocused (members s) = d
    \<and> GetLastFocusedTerminalControl (Pane m' (Some f) (Some s)) = Inr (if d then Some c0 else None)"
proof -
  from SplitLeaf_shape[OF assms(2,3), of orientation d g c w] obtain f s w' where
    R: "SplitLeaf orientation d g (Some c) p w =
      Inr (Pane ((members p)\<lparr>splitState := orientation, profile := None, control := None,
                   firstClosedToken := 1, secondClosedToken := 1, lastFocused := False\<rparr>)
             (Some f) (Some s), w')"
    and F: "firstChild f = None" "secondChild f = None" "splitState (members f) = SplitState_None"
      "control (members f) = Some c0" "profile (members f) = Some g0" "lastFocused (members f) = d"
    and S: "firstChild s = None" "secondChild s = None" "splitState (members s) = SplitState_None"
      "control (members s) = Some c" "profile (members s) = Some g" "lastFocused (members s) = d"
    by blast
  have Gf: "GetLastFocusedTerminalControl f = Inr (if d then Some c0 else None)"
    using F by (cases f) (simp add: IsLeaf_def)
  have Gs: "GetLastFocusedTerminalControl s = Inr (if d then Some c else None)"
    using S by (cases s) (simp add: IsLeaf_def)
  let ?m = "(members p)\<lparr>splitState := orientation, profile := None, control := None,
                   firstClosedToken := 1, secondClosedToken := 1, lastFocused := False\<rparr>"
  have G: "GetLastFocusedTerminalControl (Pane ?m (Some f) (Some s)) = Inr (if d then Some c0 else None)"
    using assms(4) Gf Gs by (simp add: IsLeaf_def)
  have "Split orientation d focused g (Some c) p w = Inr (Pane ?m (Some f) (Some s), w')"
    using R assms(1) by (simp add: Split_leaf)
  with F S G assms(4) show ?thesis
    by (simp add: IsLeaf_def)
qed

theorem Split_leaf_structure_witness:
  "IsLeaf (ex_leaf 1 10 20 True) \<and> control (members (ex_leaf 1 10 20 True)) = Some 10
   \<and> profile (members (ex_leaf 1 10 20 True)) = Some 20 \<and> Horizontal \<noteq> SplitState_None
   \<and> (\<exists>m' f s w'.
        SplitHorizontal False (\<lambda>c. c = 10) 21 (Some 11) (ex_leaf 1 10 20 True) ex_world
          = Inr (Pane m' (Some f) (Some s), w')
      \<and> splitState m' = Horizontal \<and> \<not> IsLeaf (Pane m' (Some f) (Some s))
      \<and> control m' = None \<and> profile m' = None \<and> \<not> lastFocused m'
      \<and> IsLeaf f \<and> firstChild f = None \<and> secondChild f = None
      \<and> control (members f) = Some 10 \<and> profile (members f) = Some 20
      \<and> IsLeaf s \<and> firstChild s = None \<and> secondChild s = None
      \<and> control (members s) = Some 11 \<and> profile (members s) = Some 21
      \<and> lastFocused (members f) = False \<and> lastFocused (members s) = False
      \<and> GetLastFocusedTerminalControl (Pane m' (Some f) (Some s))
           = Inr (if False then Some 10 else None))"
proof -
  have h: "IsLeaf (ex_leaf 1 10 20 True)" "control (members (ex_leaf 1 10 20 True)) = Some 10"
    "profile (members (ex_leaf 1 10 20 True)) = Some 20" "Horizontal \<noteq> SplitState_None"
    by (simp_all add: ex_leaf_def IsLeaf_def)
  from h Split_leaf_structure[OF h, of False "\<lambda>c. c = 10" 21 11 ex_world]
  show ?thesis unfolding SplitHorizontal_def by (intro conjI)
qed

text \<open>
  The claim as stated fails for either default. With the default false, a flagged leaf
  answers its control before the split and none after it; with the default true, an
  unflagged leaf answers none before the split and its control after it.
\<close>

theorem Split_focus_counterexample:
  "GetLastFocusedTerminalControl (ex_leaf 1 10 20 True) = Inr (Some 10)
   \<and> (case SplitVertical False (\<lambda>c. c = 10) 21 (Some 11) (ex_leaf 1 10 20 True) ex_world of
         Inl e \<Rightarrow> Inl e
       | Inr (p', w') \<Rightarrow> GetLastFocusedTerminalControl p') = Inr None
   \<and> GetLastFocusedTerminalControl (ex_leaf 1 10 20 False) = Inr None
   \<and> (case SplitVertical True (\<lambda>c. c = 10) 21 (Some 11) (ex_leaf 1 10 20 False) ex_world of
         Inl e \<Rightarrow> Inl e
       | Inr (p', w') \<Rightarrow> GetLastFocusedTerminalControl p') = Inr (Some 10)"
  by (simp add: SplitVertical_def ex_leaf_def ex_world_def IsLeaf_def SplitLeaf_def
        make_shared_Pane_Some SetupChildCloseHandlers_Some Let_def)

subsection \<open>Split, then close the new child\<close>

text \<open>
  Claim C3, as amended. Splitting a leaf that has its control and profile and then closing
  the second child leaves a leaf at the same node with the original control and profile
  and no children. Its flag is the constructor's default \<open>d\<close> given to both new leaves,
  not the flag of the original leaf.
\<close>

theorem Split_then_CloseChild_second:
  assumes "IsLeaf p" and "control (members p) = Some c0" and "profile (members p) = Some g0"
  shows "\<exists>p1 w1 p2 w2.
      Split orientation d focused g (Some c) p w = Inr (p1, w1)
    \<and> CloseChild False p1 w1 = Inr (p2, w2)
    \<and> IsLeaf p2 \<and> firstChild p2 = None \<and> secondChild p2 = None
    \<and> self (members p2) = self (members p)
    \<and> control (members p2) = Some c0 \<and> profile (members p2) = Some g0
    \<and> lastFocused (members p2) = d"
proof -
  from SplitLeaf_shape[OF assms(2,3), of orientation d g c w] obtain f s w1 where
    R: "SplitLeaf orientation d g (Some c) p w =
      Inr (Pane ((members p)\<lparr>splitState := orientation, profile := None, control := None,
                   firstClosedToken := 1, secondClosedToken := 1, lastFocused := False\<rparr>)
             (Some f) (Some s), w1)"
    and F: "splitState (members f) = SplitState_None"
      "control (members f) = Some c0" "profile (members f) = Some g0" "lastFocused (members f) = d"
    and S: "lastFocused (members s) = d"
    by blast
  let ?p1 = "Pane ((members p)\<lparr>splitState := orientation, profile := None, control := None,
                   firstClosedToken := 1, secondClosedToken := 1, lastFocused := False\<rparr>)
             (Some f) (Some s)"
  have 1: "Split orientation d focused g (Some c) p w = Inr (?p1, w1)"
    using R assms(1) by (simp add: Split_leaf)
  have a: "firstChild ?p1 = Some f" "secondChild ?p1 = Some s"
    "IsLeaf (if False then s else f)" "control (members (if False then s else f)) = Some c0"
    using F by (simp_all add: IsLeaf_def)
  from CloseChild_leaf_remaining[OF a, of w1] obtain tok w2 where
    2: "CloseChild False ?p1 w1 =
      Inr (Pane ((members ?p1)\<lparr>control := Some c0,
                   profile := profile (members (if False then s else f)),
                   lastFocused := (lastFocused (members f) \<or> lastFocused (members s)),
                   connectionClosedToken := tok,
                   splitState := SplitState_None\<rparr>) None None, w2)"
    by blast
  let ?p2 = "Pane ((members ?p1)\<lparr>control := Some c0,
                   profile := profile (members (if False then s else f)),
                   lastFocused := (lastFocused (members f) \<or> lastFocused (members s)),
                   connectionClosedToken := tok,
                   splitState := SplitState_None\<rparr>) None None"
  have "IsLeaf ?p2 \<and> firstChild ?p2 = None \<and> secondChild ?p2 = None
    \<and> self (members ?p2) = self (members p)
    \<and> control (members ?p2) = Some c0 \<and> profile (members ?p2) = Some g0
    \<and> lastFocused (members ?p2) = d"
    by (simp add: IsLeaf_def F S)
  with 1 2 show ?thesis by blast
qed

theorem Split_then_CloseChild_second_witness:
  "IsLeaf (ex_leaf 1 10 20 True) \<and> control (members (ex_leaf 1 10 20 True)) = Some 10
   \<and> profile (members (ex_leaf 1 10 20 True)) = Some 20
   \<and> (\<exists>p1 w1 p2 w2.
        SplitVertical False (\<lambda>c. c = 10) 21 (Some 11) (ex_leaf 1 10 20 True) ex_world
          = Inr (p1, w1)
      \<and> CloseChild False p1 w1 = Inr (p2, w2)
      \<and> IsLeaf p2 \<and> firstChild p2 = None \<and> secondChild p2 = None
      \<and> self (members p2) = self (members (ex_leaf 1 10 20 True))
      \<and> control (members p2) = Some 10 \<and> profile (members p2) = Some 20
      \<and> lastFocused (members p2) = False)"
proof -
  have h: "IsLeaf (ex_leaf 1 10 20 True)" "control (members (ex_leaf 1 10 20 True)) = Some 10"
    "profile (members (ex_leaf 1 10 20 True)) = Some 20"
    by (simp_all add: ex_leaf_def IsLeaf_def)
  from h Split_then_CloseChild_second[OF h, of Vertical False "\<lambda>c. c = 10" 21 11 ex_world]
  show ?thesis unfolding SplitVertical_def by (intro conjI)
qed

text \<open>
  The original flag is lost: a flagged leaf comes back unflagged when the default is
  false, and an unflagged leaf comes back flagged when it is true.
\<close>

theorem Split_then_CloseChild_focus_counterexample:
  "lastFocused (members (ex_leaf 1 10 20 True)) = True
   \<and> (case SplitVertical False (\<lambda>c. c = 10) 21 (Some 11) (ex_leaf 1 10 20 True) ex_world of
         Inl e \<Rightarrow> Inl e
       | Inr (p1, w1) \<Rightarrow>
          (case CloseChild False p1 w1 of
             Inl e \<Rightarrow> Inl e
           | Inr (p2, w2) \<Rightarrow>
               Inr (control (members p2), profile (members p2), lastFocused (members p2))))
     = Inr (Some 10, Some 20, False)
   \<and> lastFocused (members (ex_leaf 1 10 20 False)) = False
   \<and> (case SplitVertical True (\<lambda>c. c = 10) 21 (Some 11) (ex_leaf 1 10 20 False) ex_world of
         Inl e \<Rightarrow> Inl e
       | Inr (p1, w1) \<Rightarrow>
          (case CloseChild False p1 w1 of
             Inl e \<Rightarrow> Inl e
           | Inr (p2, w2) \<Rightarrow>
               Inr (control (members p2), profile (members p2), lastFocused (members p2))))
     = Inr (Some 10, Some 20, True)"
  by (simp add: SplitVertical_def ex_leaf_def ex_world_def IsLeaf_def SplitLeaf_def
        make_shared_Pane_Some SetupChildCloseHandlers_Some Let_def CloseChild_def
        AddControlToRoot_def event_add_def)

subsection \<open>Closing next to a leaf\<close>

text \<open>
  Claim C4. On a node with both children whose remaining child is a leaf with a control,
  \<open>_CloseChild\<close> succeeds and makes the node a leaf: it takes the remaining child's
  control and profile, its flag is the disjunction of the two children's flags, its split
  state is none and both child pointers are null. It subscribes itself to the adopted
  control's \<open>ConnectionClosed\<close>, and calls \<open>Focus\<close> on that control exactly when its
  flag is now set.
\<close>

theorem CloseChild_leaf_sibling:
  assumes "firstChild p = Some f" and "secondChild p = Some s"
    and "IsLeaf (if closeFirst then s else f)"
    and "control (members (if closeFirst then s else f)) = Some c"
  shows "\<exists>p' w'. CloseChild closeFirst p w = Inr (p', w')
     \<and> IsLeaf p'
     \<and> control (members p') = Some c
     \<and> profile (members p') = profile (members (if closeFirst then s else f))
     \<and> lastFocused (members p') = (lastFocused (members f) \<or> lastFocused (members s))
     \<and> splitState (members p') = SplitState_None
     \<and> firstChild p' = None \<and> secondChild p' = None
     \<and> calls w' = calls w @ (if lastFocused (members p') then [Focus c] else [])
     \<and> (connectionClosedToken (members p'), self (members p)) \<in> set (ConnectionClosed w' c)"
proof -
  from CloseChild_leaf_remaining[OF assms, of w] obtain tok where
    "CloseChild closeFirst p w =
     Inr (Pane ((members p)\<lparr>control := Some c,
                   profile := profile (members (if closeFirst then s else f)),
                   lastFocused := (lastFocused (members f) \<or> lastFocused (members s)),
                   connectionClosedToken := tok,
                   splitState := SplitState_None\<rparr>) None None,
          w\<lparr>ConnectionClosed := (ConnectionClosed w)
                 (c := ConnectionClosed w c @ [(tok, self (members p))]),
            calls := calls w @ (if lastFocused (members f) \<or> lastFocused (members s)
                                 then [Focus c] else [])\<rparr>)" by blast
  then show ?thesis by (simp add: IsLeaf_def)
qed

theorem CloseChild_leaf_sibling_witness:
  "\<exists>f s. firstChild ex_pair = Some f \<and> secondChild ex_pair = Some s
     \<and> IsLeaf (if False then s else f)
     \<and> control (members (if False then s else f)) = Some 10
     \<and> (\<exists>p' w'. CloseChild False ex_pair ex_world = Inr (p', w')
          \<and> IsLeaf p' \<and> control (members p') = Some 10 \<and> profile (members p') = Some 20
          \<and> lastFocused (members p') \<and> firstChild p' = None \<and> secondChild p' = None
          \<and> calls w' = [Focus 10])"
proof -
  obtain f s where h: "firstChild ex_pair = Some f" "secondChild ex_pair = Some s"
    "IsLeaf (if False then s else f)" "control (members (if False then s else f)) = Some 10"
    and v: "profile (members f) = Some 20" "lastFocused (members f)"
    by (simp add: ex_pair_def ex_split_def ex_leaf_def IsLeaf_def)
  have e: "calls ex_world = []" by (simp add: ex_world_def)
  from CloseChild_leaf_sibling[OF h, of ex_world] obtain p' w' where
    "CloseChild False ex_pair ex_world = Inr (p', w')" "IsLeaf p'"
    "control (members p') = Some 10" "profile (members p') = Some 20"
    "lastFocused (members p')" "firstChild p' = None" "secondChild p' = None"
    "calls w' = [Focus 10]"
    using v e by auto
  with h show ?thesis by blast
qed

subsection \<open>The focus flag under the operations\<close>

lemma nFocused_leaf:
  "IsLeaf (Pane m fc sc) \<Longrightarrow> nFocused (Pane m fc sc) = (if lastFocused m then 1 else 0)"
  by (simp add: nFocused_def focusedLeaves_def WasLastFocused_def)

lemma nFocused_split:
  "\<not> IsLeaf (Pane m (Some f) (Some s)) \<Longrightarrow>
     nFocused (Pane m (Some f) (Some s)) = nFocused f + nFocused s"
  by (simp add: nFocused_def focusedLeaves_def)

lemma nFocused_handlers:
  "nFocused (Pane ((members p)\<lparr>closedHandlers := hs\<rparr>) (firstChild p) (secondChild p)) = nFocused p"
  by (cases p) (simp add: nFocused_def focusedLeaves_def IsLeaf_def WasLastFocused_def)

lemma splitsUnfocused_handlers:
  "splitsUnfocused (Pane ((members p)\<lparr>closedHandlers := hs\<rparr>) (firstChild p) (secondChild p))
     = splitsUnfocused p"
  by (cases p) (simp add: IsLeaf_def)

lemma flagged_counts:
  "splitsUnfocused x \<Longrightarrow> lastFocused (members x) \<Longrightarrow> 1 \<le> nFocused x"
  by (cases x) (auto simp: nFocused_leaf)

lemma focus_make_shared_Pane:
  "make_shared_Pane g ctl lf w = Inr (p, w') \<Longrightarrow> splitsUnfocused p \<and> nFocused p \<le> 1"
  by (cases ctl) (auto simp: make_shared_Pane_Some make_shared_Pane_None nFocused_leaf IsLeaf_def)

lemma focus_SplitLeaf:
  assumes "wf p" and "IsLeaf p" and "orientation \<noteq> SplitState_None"
    and "SplitLeaf orientation False g ctl p w = Inr (p', w')"
  shows "splitsUnfocused p' \<and> nFocused p' = 0"
proof -
  obtain m fc sc where p: "p = Pane m fc sc" by (cases p)
  from assms(1,2) p obtain c0 g0 where m: "control m = Some c0" "profile m = Some g0"
    by (auto simp: exclusive_def)
  from assms(4) obtain c where c: "ctl = Some c"
    using m p by (cases ctl) (auto simp: SplitLeaf_def make_shared_Pane_Some make_shared_Pane_None
        Let_def)
  from SplitLeaf_shape[of p c0 g0 orientation False g c w] m p obtain f s w1 where
    R: "SplitLeaf orientation False g (Some c) p w =
      Inr (Pane ((members p)\<lparr>splitState := orientation, profile := None, control := None,
                   firstClosedToken := 1, secondClosedToken := 1, lastFocused := False\<rparr>)
             (Some f) (Some s), w1)"
    and F: "firstChild f = None" "secondChild f = None" "splitState (members f) = SplitState_None"
      "lastFocused (members f) = False"
    and S: "firstChild s = None" "secondChild s = None" "splitState (members s) = SplitState_None"
      "lastFocused (members s) = False"
    by auto
  have f: "splitsUnfocused f \<and> nFocused f = 0"
    using F by (cases f) (simp add: nFocused_leaf IsLeaf_def)
  have s: "splitsUnfocused s \<and> nFocused s = 0"
    using S by (cases s) (simp add: nFocused_leaf IsLeaf_def)
  from R assms(4) c have "p' = Pane ((members p)\<lparr>splitState := orientation, profile := None,
       control := None, firstClosedToken := 1, secondClosedToken := 1, lastFocused := False\<rparr>)
             (Some f) (Some s)" by simp
  with f s assms(3) show ?thesis
    by (simp add: nFocused_split IsLeaf_def)
qed

lemma focus_Split:
  "wf t \<Longrightarrow> splitsUnfocused t \<Longrightarrow> orientation \<noteq> SplitState_None \<Longrightarrow>
   Split orientation False focused g ctl t w = Inr (t', w') \<Longrightarrow>
   splitsUnfocused t' \<and> nFocused t' \<le> nFocused t"
proof (induction orientation "False" focused g ctl t w arbitrary: t' w' rule: Split.induct)
  case (1 orientation focused g ctl m fc sc w)
  show ?case
  proof (cases "IsLeaf (Pane m fc sc)")
    case True
    with "1.prems"(4) have "SplitLeaf orientation False g ctl (Pane m fc sc) w = Inr (t', w')"
      by simp
    from focus_SplitLeaf[OF "1.prems"(1) True "1.prems"(3) this] show ?thesis by simp
  next
    case False
    from wf_split_children[OF "1.prems"(1) False] obtain f s
      where fs: "fc = Some f" "sc = Some s" "wf f" "wf s" by blast
    from "1.prems"(2) fs False have su: "splitsUnfocused f" "splitsUnfocused s" "\<not> lastFocused m"
      by simp_all
    show ?thesis
    proof (cases "HasFocusedChild focused f")
      case True
      with "1.prems"(4) False fs obtain f' where
        f': "Split orientation False focused g ctl f w = Inr (f', w')" "t' = Pane m (Some f') sc"
        by (auto split: sum.splits)
      from "1.hyps"(1)[OF False fs(1) True fs(3) su(1) "1.prems"(3) f'(1)]
      have "splitsUnfocused f' \<and> nFocused f' \<le> nFocused f" .
      with f'(2) fs su False show ?thesis
        by (simp add: nFocused_split IsLeaf_def)
    next
      case nf: False
      show ?thesis
      proof (cases "HasFocusedChild focused s")
        case True
        with "1.prems"(4) False fs nf obtain s' where
          s': "Split orientation False focused g ctl s w = Inr (s', w')" "t' = Pane m fc (Some s')"
          by (auto split: sum.splits)
        from "1.hyps"(2)[OF False fs(1) nf fs(2) True fs(4) su(2) "1.prems"(3) s'(1)]
        have "splitsUnfocused s' \<and> nFocused s' \<le> nFocused s" .
        with s'(2) fs su \<open>\<not> IsLeaf (Pane m fc sc)\<close> show ?thesis
          by (simp add: nFocused_split IsLeaf_def)
      next
        case False
        with "1.prems" nf fs \<open>\<not> IsLeaf (Pane m fc sc)\<close> show ?thesis by auto
      qed
    qed
  qed
qed

lemma focus_CloseChild:
  assumes "wf p" and "splitsUnfocused p" and "CloseChild closeFirst p w = Inr (p', w')"
  shows "splitsUnfocused p' \<and> nFocused p' \<le> nFocused p"
proof -
  obtain m fc sc where p: "p = Pane m fc sc" by (cases p)
  from assms(3) p obtain f s where fs: "fc = Some f" "sc = Some s"
    by (auto simp: CloseChild_def split: option.splits if_splits)
  with assms(1) p have nl: "\<not> IsLeaf p" and wfs: "wf f" "wf s"
    by (auto simp: exclusive_def)
  from assms(2) p fs nl have su: "splitsUnfocused f" "splitsUnfocused s" "\<not> lastFocused m"
    by simp_all
  have np: "nFocused p = nFocused f + nFocused s"
    using p fs nl by (simp add: nFocused_split)
  let ?r = "if closeFirst then s else f"
  have wr: "wf ?r" using wfs by simp
  have a: "firstChild p = Some f" "secondChild p = Some s" using p fs by simp_all
  show ?thesis
  proof (cases "IsLeaf ?r")
    case True
    from wr True obtain c where c: "control (members ?r) = Some c"
      by (cases ?r) (auto simp: exclusive_def)
    from CloseChild_leaf_remaining[OF a True c, of w] assms(3) obtain tok where
      p': "p' = Pane ((members p)\<lparr>control := Some c,
                   profile := profile (members ?r),
                   lastFocused := (lastFocused (members f) \<or> lastFocused (members s)),
                   connectionClosedToken := tok,
                   splitState := SplitState_None\<rparr>) None None"
      by auto
    have "nFocused p' = (if lastFocused (members f) \<or> lastFocused (members s) then 1 else 0)"
      by (subst p') (simp add: nFocused_leaf IsLeaf_def)
    moreover have "splitsUnfocused p'" by (subst p') (simp add: IsLeaf_def)
    ultimately show ?thesis
      using np flagged_counts[OF su(1)] flagged_counts[OF su(2)] by auto
  next
    case False
    obtain mr fr sr where r: "?r = Pane mr fr sr" by (cases ?r)
    from wf_split_children[of mr fr sr] wr False r obtain f2 s2 where
      c2: "fr = Some f2" "sr = Some s2" "wf f2" "wf s2" by auto
    have b: "firstChild ?r = Some f2" "secondChild ?r = Some s2"
      using r c2 by simp_all
    have sr: "splitsUnfocused ?r" using su by simp
    with r c2 False have su2: "splitsUnfocused f2" "splitsUnfocused s2" by auto
    have nr: "nFocused ?r = nFocused f2 + nFocused s2"
      using r c2 False nFocused_split[of mr f2 s2] by simp
    have rs: "splitState (members ?r) \<noteq> SplitState_None" using False by (simp add: IsLeaf_def)
    let ?f2 = "Pane ((members f2)\<lparr>closedHandlers := closedHandlers (members f2) @
                      [(fresh_token (closedHandlers (members f2)), self (members p), True)]\<rparr>)
                    (firstChild f2) (secondChild f2)"
    let ?s2 = "Pane ((members s2)\<lparr>closedHandlers := closedHandlers (members s2) @
                      [(fresh_token (closedHandlers (members s2)), self (members p), False)]\<rparr>)
                    (firstChild s2) (secondChild s2)"
    let ?m = "(members p)\<lparr>splitState := splitState (members ?r),
                   firstClosedToken := fresh_token (closedHandlers (members f2)),
                   secondClosedToken := fresh_token (closedHandlers (members s2))\<rparr>"
    from CloseChild_split_remaining[OF a False b, of w] assms(3)
    have p': "p' = Pane ?m (Some ?f2) (Some ?s2)" by simp
    have h: "splitsUnfocused ?f2" "splitsUnfocused ?s2" "nFocused ?f2 = nFocused f2"
      "nFocused ?s2 = nFocused s2"
      using su2 by (simp_all only: splitsUnfocused_handlers nFocused_handlers)
    have l: "\<not> IsLeaf (Pane ?m (Some ?f2) (Some ?s2))" using rs by (simp add: IsLeaf_def)
    have "nFocused p' = nFocused f2 + nFocused s2"
      unfolding p' nFocused_split[OF l] h ..
    moreover have "\<not> lastFocused ?m" using su(3) p by simp
    then have "splitsUnfocused p'"
      unfolding p' using h(1,2) by (simp del: splitsUnfocused.simps add: splitsUnfocused.simps[of ?m])
    ultimately show ?thesis using np nr by (auto split: if_splits)
  qed
qed

lemma focus_CloseChild_at:
  "wf t \<Longrightarrow> splitsUnfocused t \<Longrightarrow> CloseChild_at a closeFirst t w = Inr (t', w') \<Longrightarrow>
   splitsUnfocused t' \<and> nFocused t' \<le> nFocused t"
proof (induction a closeFirst t w arbitrary: t' w' rule: CloseChild_at.induct)
  case (1 a closeFirst m fc sc w)
  show ?case
  proof (cases "self m = a")
    case True
    with "1.prems"(3) have "CloseChild closeFirst (Pane m fc sc) w = Inr (t', w')"
      by simp
    from focus_CloseChild[OF "1.prems"(1,2) this] show ?thesis .
  next
    case False
    have nl: "\<not> IsLeaf (Pane m fc sc)"
    proof
      assume "IsLeaf (Pane m fc sc)"
      with "1.prems"(1) have "fc = None" "sc = None" by (auto simp: exclusive_def)
      with "1.prems"(3) False show False by simp
    qed
    from wf_split_children[OF "1.prems"(1) nl] obtain f s
      where fs: "fc = Some f" "sc = Some s" "wf f" "wf s" by blast
    from "1.prems"(2) fs nl have su: "splitsUnfocused f" "splitsUnfocused s" "\<not> lastFocused m"
      by simp_all
    show ?thesis
    proof (cases "lookup_pane a f \<noteq> None")
      case True
      with fs have c: "case fc of None \<Rightarrow> False | Some f \<Rightarrow> lookup_pane a f \<noteq> None" by simp
      from "1.prems"(3) False True fs obtain f' where
        f': "CloseChild_at a closeFirst f w = Inr (f', w')" "t' = Pane m (Some f') sc"
        by (auto split: sum.splits)
      from "1.IH"(1)[OF False c fs(1) fs(3) su(1) f'(1)]
      have "splitsUnfocused f' \<and> nFocused f' \<le> nFocused f" .
      with f'(2) fs su nl show ?thesis
        by (simp add: nFocused_split IsLeaf_def)
    next
      case nf: False
      with fs have c: "\<not> (case fc of None \<Rightarrow> False | Some f \<Rightarrow> lookup_pane a f \<noteq> None)" by simp
      from "1.prems"(3) False nf fs obtain s' where
        s': "CloseChild_at a closeFirst s w = Inr (s', w')" "t' = Pane m fc (Some s')"
        by (auto split: sum.splits)
      from "1.IH"(2)[OF False c fs(2) fs(4) su(2) s'(1)]
      have "splitsUnfocused s' \<and> nFocused s' \<le> nFocused s" .
      with s'(2) fs su nl show ?thesis
        by (simp add: nFocused_split IsLeaf_def)
    qed
  qed
qed

lemma nLive_leaf:
  "IsLeaf (Pane m fc sc) \<Longrightarrow> nLive focused (Pane m fc sc) =
     (if (case control m of None \<Rightarrow> False | Some c \<Rightarrow> focused c) then 1 else 0)"
  by (simp add: nLive_def)

lemma nLive_split:
  "\<not> IsLeaf (Pane m (Some f) (Some s)) \<Longrightarrow>
     nLive focused (Pane m (Some f) (Some s)) = nLive focused f + nLive focused s"
  by (simp add: nLive_def)

lemma focus_CheckFocus:
  "wf t \<Longrightarrow> CheckFocus focused t = Inr t' \<Longrightarrow>
     splitsUnfocused t' \<and> nFocused t' = nLive focused t"
proof (induction focused t arbitrary: t' rule: CheckFocus.induct)
  case (1 focused m fc sc)
  show ?case
  proof (cases "IsLeaf (Pane m fc sc)")
    case True
    with "1.prems"(2) have "t' = Pane (m\<lparr>lastFocused :=
        (case control m of None \<Rightarrow> False | Some c \<Rightarrow> focused c)\<rparr>) fc sc" by auto
    moreover from "1.prems"(1) True have "fc = None" "sc = None"
      by (auto simp: exclusive_def)
    ultimately show ?thesis using True
      by (simp add: nFocused_leaf nLive_leaf IsLeaf_def)
  next
    case False
    from wf_split_children[OF "1.prems"(1) False] obtain f s
      where fs: "fc = Some f" "sc = Some s" "wf f" "wf s" by blast
    from "1.prems"(2) False fs obtain f' s' where
      r: "CheckFocus focused f = Inr f'" "CheckFocus focused s = Inr s'"
      "t' = Pane (m\<lparr>lastFocused := False\<rparr>) (Some f') (Some s')"
      by (auto split: sum.splits)
    from "1.IH"(1)[OF False fs(1) fs(3) r(1)]
    have F: "splitsUnfocused f' \<and> nFocused f' = nLive focused f" .
    from "1.IH"(2)[OF False fs(1) r(1) fs(2) fs(4) r(2)]
    have S: "splitsUnfocused s' \<and> nFocused s' = nLive focused s" .
    from F S r(3) False fs show ?thesis
      by (simp add: nFocused_split nLive_split IsLeaf_def)
  qed
qed

lemma reachable_wf: "reachable d ui t w \<Longrightarrow> wf t"
proof (induction rule: reachable.induct)
  case (root g ctl lf w0 t w)
  then show ?case by (rule wf_make_shared_Pane)
next
  case (splitVertical t w focused g ctl t' w')
  then show ?case by (auto simp: SplitVertical_def intro: wf_Split)
next
  case (splitHorizontal t w focused g ctl t' w')
  then show ?case by (auto simp: SplitHorizontal_def intro: wf_Split)
next
  case (closeChild t w a closeFirst t' w')
  then show ?case by (auto intro: wf_CloseChild_at)
next
  case (checkFocus t w focused t')
  then show ?case by (auto intro: wf_CheckFocus)
next
  case (checkUpdateSettings t w settings g t' w')
  then show ?case by (simp add: CheckUpdateSettings_wf)
qed

lemma reachable_focus:
  "reachable False exclusiveFocus t w \<Longrightarrow> splitsUnfocused t \<and> nFocused t \<le> 1"
proof (induction rule: reachable.induct)
  case (root g ctl lf w0 t w)
  then show ?case by (rule focus_make_shared_Pane)
next
  case (splitVertical t w focused g ctl t' w')
  from focus_Split[OF reachable_wf[OF splitVertical(1)], of Vertical focused g ctl w t' w']
    splitVertical(2,3)
  show ?case by (simp add: SplitVertical_def)
next
  case (splitHorizontal t w focused g ctl t' w')
  from focus_Split[OF reachable_wf[OF splitHorizontal(1)], of Horizontal focused g ctl w t' w']
    splitHorizontal(2,3)
  show ?case by (simp add: SplitHorizontal_def)
next
  case (closeChild t w a closeFirst t' w')
  from focus_CloseChild_at[OF reachable_wf[OF closeChild(1)] _ closeChild(2)] closeChild(3)
  show ?case by simp
next
  case (checkFocus t w focused t')
  from focus_CheckFocus[OF reachable_wf[OF checkFocus(1)] checkFocus(3)] checkFocus(2)
  show ?case by (simp add: exclusiveFocus_def)
next
  case (checkUpdateSettings t w settings g t' w')
  from reachable_wf[OF checkUpdateSettings(1)] checkUpdateSettings(2,3)
  show ?case by (simp add: CheckUpdateSettings_wf)
qed

text \<open>A terminating session only runs \<open>_CloseChild\<close> tasks, so it stays among the reachable states.\<close>

lemma reachable_run_tasks:
  "reachable d ui t w \<Longrightarrow> run_tasks q t w = Inr (t', w') \<Longrightarrow> reachable d ui t' w'"
proof (induction q arbitrary: t w)
  case Nil
  then show ?case by simp
next
  case (Cons x q)
  obtain a closeFirst where x: "x = (a, closeFirst)" by (cases x)
  from Cons.prems(2) x obtain t1 w1 where
    1: "CloseChild_at a closeFirst t w = Inr (t1, w1)" and 2: "run_tasks q t1 w1 = Inr (t', w')"
    by (auto split: sum.splits)
  from reachable.closeChild[OF Cons.prems(1) 1] have "reachable d ui t1 w1" .
  from Cons.IH[OF this 2] show ?case .
qed

lemma reachable_session_closed:
  "reachable d ui t w \<Longrightarrow> session_closed closeOnExit c t w = Inr (t', w') \<Longrightarrow>
   reachable d ui t' w'"
  by (auto simp: session_closed_def split: sum.splits intro: reachable_run_tasks)

lemma wf_nodes: "wf t \<Longrightarrow> n \<in> set (nodes t) \<Longrightarrow> exclusive n"
  by (induction t rule: nodes.induct) (auto split: option.splits)


subsection \<open>The example session\<close>

lemma ex_s0_reachable: "\<exists>t w. ex_s0 = Inr (t, w) \<and> reachable lastFocused_default ui t w"
proof -
  obtain t w where e: "ex_s0 = Inr (t, w)"
    by (simp add: ex_s0_def make_shared_Pane_Some)
  then have "reachable lastFocused_default ui t w"
    unfolding ex_s0_def by (rule reachable.root)
  with e show ?thesis by blast
qed

lemma ex_s1_tree:
  "\<exists>w. ex_s1 = Inr (ex_split 100 Vertical (ex_leaf 101 10 20 False) (ex_leaf 102 11 21 False), w)"
  by (simp add: ex_s1_def ex_s0_def andThen_def ex_world_def make_shared_Pane_Some
        SplitVertical_def IsLeaf_def SplitLeaf_def SetupChildCloseHandlers_Some Let_def
        lastFocused_default_def event_remove_def fresh_token_def ex_split_def ex_leaf_def)

lemma ex_s1_reachable:
  "\<exists>w. ex_s1 = Inr (ex_split 100 Vertical (ex_leaf 101 10 20 False) (ex_leaf 102 11 21 False), w)
     \<and> reachable lastFocused_default ui
          (ex_split 100 Vertical (ex_leaf 101 10 20 False) (ex_leaf 102 11 21 False)) w"
proof -
  let ?t = "ex_split 100 Vertical (ex_leaf 101 10 20 False) (ex_leaf 102 11 21 False)"
  from ex_s0_reachable[of ui] obtain t0 w0 where
    0: "ex_s0 = Inr (t0, w0)" "reachable lastFocused_default ui t0 w0" by blast
  from ex_s1_tree obtain w where 1: "ex_s1 = Inr (?t, w)" by blast
  then have "SplitVertical lastFocused_default (\<lambda>c. c = 10) 21 (Some 11) t0 w0 = Inr (?t, w)"
    unfolding ex_s1_def andThen_def 0(1) by simp
  from reachable.splitVertical[OF 0(2) this] 1 show ?thesis by blast
qed

lemma ex_s2_tree:
  "\<exists>w. ex_s2 = Inr (ex_split 100 Vertical (ex_leaf 101 10 20 False)
                      (ex_split 102 Horizontal (ex_leaf 103 11 21 False) (ex_leaf 104 12 22 False)), w)"
  by (simp add: ex_s2_def ex_s1_def ex_s0_def andThen_def ex_world_def make_shared_Pane_Some
        SplitVertical_def SplitHorizontal_def IsLeaf_def SplitLeaf_def SetupChildCloseHandlers_Some
        Let_def lastFocused_default_def event_remove_def fresh_token_def ex_split_def ex_leaf_def)

lemma ex_s2_reachable:
  "\<exists>w. ex_s2 = Inr (ex_split 100 Vertical (ex_leaf 101 10 20 False)
                      (ex_split 102 Horizontal (ex_leaf 103 11 21 False) (ex_leaf 104 12 22 False)), w)
     \<and> reachable lastFocused_default ui
          (ex_split 100 Vertical (ex_leaf 101 10 20 False)
             (ex_split 102 Horizontal (ex_leaf 103 11 21 False) (ex_leaf 104 12 22 False))) w"
proof -
  let ?t = "ex_split 100 Vertical (ex_leaf 101 10 20 False)
              (ex_split 102 Horizontal (ex_leaf 103 11 21 False) (ex_leaf 104 12 22 False))"
  from ex_s1_reachable[of ui] obtain t1 w1 where
    1: "ex_s1 = Inr (t1, w1)" "reachable lastFocused_default ui t1 w1" by blast
  from ex_s2_tree obtain w where 2: "ex_s2 = Inr (?t, w)" by blast
  then have "SplitHorizontal lastFocused_default (\<lambda>c. c = 11) 22 (Some 12) t1 w1 = Inr (?t, w)"
    unfolding ex_s2_def andThen_def 1(1) by simp
  from reachable.splitHorizontal[OF 1(2) this] 2 show ?thesis by blast
qed

lemma ex_s1_world:
  "\<exists>w. ex_s1 = Inr (ex_split 100 Vertical (ex_leaf 101 10 20 False) (ex_leaf 102 11 21 False), w)
     \<and> ConnectionClosed w 10 = [(1, 101)] \<and> ConnectionClosed w 11 = [(1, 102)]"
  by (simp add: ex_s1_def ex_s0_def andThen_def ex_world_def make_shared_Pane_Some
        SplitVertical_def IsLeaf_def SplitLeaf_def SetupChildCloseHandlers_Some Let_def
        lastFocused_default_def event_remove_def fresh_token_def ex_split_def ex_leaf_def)

lemma ex_s2_world:
  "\<exists>w. ex_s2 = Inr (ex_split 100 Vertical (ex_leaf 101 10 20 False)
                      (ex_split 102 Horizontal (ex_leaf 103 11 21 False) (ex_leaf 104 12 22 False)), w)
     \<and> ConnectionClosed w 10 = [(1, 101)] \<and> ConnectionClosed w 11 = [(1, 103)]
     \<and> ConnectionClosed w 12 = [(1, 104)]"
  by (simp add: ex_s2_def ex_s1_def ex_s0_def andThen_def ex_world_def make_shared_Pane_Some
        SplitVertical_def SplitHorizontal_def IsLeaf_def SplitLeaf_def SetupChildCloseHandlers_Some
        Let_def lastFocused_default_def event_remove_def fresh_token_def ex_split_def ex_leaf_def)

subsection \<open>Leaf and split are exclusive\<close>

text \<open>
  Claim C6. At every node of every reachable tree the readings of "leaf" agree:
  \<open>_IsLeaf\<close> holds iff the split state is none, iff both child pointers are null, iff
  the node has a control. Reachable means built by the constructor and then changed by
  \<open>SplitVertical\<close>, \<open>SplitHorizontal\<close>, \<open>_CloseChild\<close> at any node, \<open>CheckFocus\<close>
  and \<open>CheckUpdateSettings\<close>, with any arguments that do not make the call fail, so each
  of these operations preserves the property (lemmas \<open>wf_Split\<close>, \<open>wf_CloseChild_at\<close>,
  \<open>wf_CheckFocus\<close>).
\<close>

theorem reachable_leaf_split_exclusive:
  assumes "reachable d ui t w" and "n \<in> set (nodes t)"
  shows "(IsLeaf n \<longleftrightarrow> splitState (members n) = SplitState_None)
       \<and> (IsLeaf n \<longleftrightarrow> firstChild n = None \<and> secondChild n = None)
       \<and> (IsLeaf n \<longleftrightarrow> control (members n) \<noteq> None)"
  using wf_nodes[OF reachable_wf[OF assms(1)] assms(2)]
  by (auto simp: exclusive_def IsLeaf_def)

theorem reachable_leaf_split_exclusive_witness:
  "(case ex_s2 of
      Inl e \<Rightarrow> False
    | Inr (t, w) \<Rightarrow>
        reachable lastFocused_default anyFocus t w \<and> t \<in> set (nodes t)
        \<and> \<not> IsLeaf t \<and> firstChild t \<noteq> None \<and> secondChild t \<noteq> None
        \<and> control (members t) = None)"
proof -
  let ?t = "ex_split 100 Vertical (ex_leaf 101 10 20 False)
              (ex_split 102 Horizontal (ex_leaf 103 11 21 False) (ex_leaf 104 12 22 False))"
  from ex_s2_reachable[of anyFocus] obtain w where
    e: "ex_s2 = Inr (?t, w)" and r: "reachable lastFocused_default anyFocus ?t w" by blast
  have n: "?t \<in> set (nodes ?t)" by (simp add: ex_split_def)
  have l: "\<not> IsLeaf ?t" by (simp add: ex_split_def IsLeaf_def)
  from reachable_leaf_split_exclusive[OF r n] l
  have "firstChild ?t \<noteq> None" "secondChild ?t \<noteq> None" "control (members ?t) = None"
    by (simp_all add: ex_split_def)
  with r n l show ?thesis unfolding e by simp
qed

subsection \<open>At most one flagged leaf\<close>

text \<open>
  Claim C1, as amended. When the constructor's default flag is false and every
  \<open>CheckFocus\<close> runs while at most one leaf of the tree has a control that reports
  focus, every reachable tree has at most one leaf with \<open>_lastFocused\<close> set. A split and
  a \<open>_CloseChild\<close> never raise the number of flagged leaves (lemmas \<open>focus_Split\<close>,
  \<open>focus_CloseChild_at\<close>); \<open>CheckFocus\<close> flags exactly the leaves whose control
  reports focus (lemma \<open>focus_CheckFocus\<close>).
\<close>

theorem reachable_at_most_one_focused:
  assumes "reachable lastFocused_default exclusiveFocus t w"
  shows "length (focusedLeaves t) \<le> 1"
  using reachable_focus[of t w] assms by (simp add: lastFocused_default_def nFocused_def)

theorem reachable_at_most_one_focused_witness:
  "(case ex_focus_one of
      Inl e \<Rightarrow> False
    | Inr (t, w) \<Rightarrow>
        reachable lastFocused_default exclusiveFocus t w
        \<and> length (focusedLeaves t) \<le> 1 \<and> map (\<lambda>l. control (members l)) (focusedLeaves t) = [Some 12])"
proof -
  let ?t = "ex_split 100 Vertical (ex_leaf 101 10 20 False)
              (ex_split 102 Horizontal (ex_leaf 103 11 21 False) (ex_leaf 104 12 22 False))"
  let ?t' = "ex_split 100 Vertical (ex_leaf 101 10 20 False)
              (ex_split 102 Horizontal (ex_leaf 103 11 21 False) (ex_leaf 104 12 22 True))"
  from ex_s2_reachable[of exclusiveFocus] obtain w where
    e: "ex_s2 = Inr (?t, w)" and r: "reachable lastFocused_default exclusiveFocus ?t w" by blast
  have x: "exclusiveFocus (\<lambda>c. c = 12) ?t"
    by (simp add: exclusiveFocus_def nLive_def ex_split_def ex_leaf_def IsLeaf_def)
  have c: "CheckFocus (\<lambda>c. c = 12) ?t = Inr ?t'"
    by (simp add: ex_split_def ex_leaf_def IsLeaf_def)
  have r': "reachable lastFocused_default exclusiveFocus ?t' w"
    using reachable.checkFocus[OF r x c] .
  have f: "ex_focus_one = Inr (?t', w)"
    unfolding ex_focus_one_def andThen_def e by (simp add: c)
  have v: "map (\<lambda>l. control (members l)) (focusedLeaves ?t') = [Some 12]"
    by (simp add: focusedLeaves_def WasLastFocused_def ex_split_def ex_leaf_def IsLeaf_def)
  from reachable_at_most_one_focused[OF r'] r' v show ?thesis
    unfolding f by simp
qed

text \<open>
  Without the condition on the UI the claim fails: \<open>CheckFocus\<close> copies each leaf's live
  answer into its flag, so after one split and a \<open>CheckFocus\<close> during which both
  controls report focus, both leaves of a reachable tree are flagged.
\<close>

theorem CheckFocus_two_focused_counterexample:
  "map_sum id fst ex_focus_all =
     Inr (ex_split 100 Vertical (ex_leaf 101 10 20 True) (ex_leaf 102 11 21 True))
   \<and> length (focusedLeaves (ex_split 100 Vertical (ex_leaf 101 10 20 True) (ex_leaf 102 11 21 True))) = 2
   \<and> (case ex_focus_all of
         Inl e \<Rightarrow> False
       | Inr (t, w) \<Rightarrow> reachable lastFocused_default anyFocus t w)"
proof -
  let ?t = "ex_split 100 Vertical (ex_leaf 101 10 20 False) (ex_leaf 102 11 21 False)"
  let ?t' = "ex_split 100 Vertical (ex_leaf 101 10 20 True) (ex_leaf 102 11 21 True)"
  from ex_s1_reachable[of anyFocus] obtain w where
    e: "ex_s1 = Inr (?t, w)" and r: "reachable lastFocused_default anyFocus ?t w" by blast
  have x: "anyFocus (\<lambda>c. True) ?t" by (simp add: anyFocus_def)
  have c: "CheckFocus (\<lambda>c. True) ?t = Inr ?t'"
    by (simp add: ex_split_def ex_leaf_def IsLeaf_def)
  have r': "reachable lastFocused_default anyFocus ?t' w"
    using reachable.checkFocus[OF r x c] .
  have f: "ex_focus_all = Inr (?t', w)"
    unfolding ex_focus_all_def andThen_def e by (simp add: c)
  have v: "length (focusedLeaves ?t') = 2"
    by (simp add: focusedLeaves_def WasLastFocused_def ex_split_def ex_leaf_def IsLeaf_def)
  from r' v show ?thesis unfolding f by simp
qed


subsection \<open>Session termination and CloseOnExit\<close>

lemma Closed_fired_eq:
  "Closed_fired closeOnExit w c = (if closeOnExit c then map snd (ConnectionClosed w c) else [])"
proof -
  have "concat (map (\<lambda>(t, a). if closeOnExit c then [a] else []) hs) =
        (if closeOnExit c then map snd hs else [])" for hs :: "(event_token \<times> addr) list"
    by (induction hs) auto
  then show ?thesis by (simp add: Closed_fired_def ConnectionClosed_lambda_def)
qed

text \<open>
  Claim C10. The handler a pane registers on its control's \<open>ConnectionClosed\<close> raises the
  pane's \<open>Closed\<close> event exactly when \<open>CloseOnExit\<close> of the control is true. So when a
  control whose \<open>CloseOnExit\<close> is false signals that its connection closed, no \<open>Closed\<close>
  event fires, no \<open>_CloseChild\<close> is queued, and the tree and the world stay as they
  were; when it is true, \<open>Closed\<close> fires on every pane subscribed to the control.
\<close>

theorem ConnectionClosed_gated_by_CloseOnExit:
  "Closed_fired closeOnExit w c = (if closeOnExit c then map snd (ConnectionClosed w c) else [])
   \<and> (\<not> closeOnExit c \<longrightarrow> session_closed closeOnExit c t w = Inr (t, w))"
  by (simp add: Closed_fired_eq session_closed_def)

theorem ConnectionClosed_gated_by_CloseOnExit_witness:
  "(case ex_s1 of
      Inl e \<Rightarrow> False
    | Inr (t, w) \<Rightarrow>
        Closed_fired (\<lambda>c. c = 10) w 11 = []
      \<and> session_closed (\<lambda>c. c = 10) 11 t w = Inr (t, w)
      \<and> Closed_fired (\<lambda>c. c = 11) w 11 = [102]
      \<and> map_sum id (\<lambda>(t', w'). (IsLeaf t', control (members t')))
            (session_closed (\<lambda>c. c = 11) 11 t w) = Inr (True, Some 10))"
proof -
  let ?t = "ex_split 100 Vertical (ex_leaf 101 10 20 False) (ex_leaf 102 11 21 False)"
  from ex_s1_world obtain w where e: "ex_s1 = Inr (?t, w)"
    and c: "ConnectionClosed w 10 = [(1, 101)]" "ConnectionClosed w 11 = [(1, 102)]" by blast
  have 1: "Closed_fired (\<lambda>c. c = 10) w 11 = []"
    "session_closed (\<lambda>c. c = 10) 11 ?t w = Inr (?t, w)"
    using ConnectionClosed_gated_by_CloseOnExit[of "\<lambda>c. c = 10" w 11 ?t] by simp_all
  have 2: "Closed_fired (\<lambda>c. c = 11) w 11 = [102]"
    using ConnectionClosed_gated_by_CloseOnExit[of "\<lambda>c. c = 11" w 11 ?t] c by simp
  have 3: "map_sum id (\<lambda>(t', w'). (IsLeaf t', control (members t')))
            (session_closed (\<lambda>c. c = 11) 11 ?t w) = Inr (True, Some 10)"
    by (simp add: session_closed_def 2 raise_Closed_def ex_split_def ex_leaf_def
          CloseChild_def IsLeaf_def AddControlToRoot_def event_add_def c)
  from 1 2 3 show ?thesis unfolding e by simp
qed

subsection \<open>Closing next to a split\<close>

text \<open>
  Claim C5. \<open>_CloseChild\<close> next to a split child takes over that child's split state and
  children, revokes its own handlers on the two former children and registers new ones on
  the adopted children (lemma \<open>CloseChild_split_remaining\<close>). It does not revoke the
  handlers that the discarded child had registered on the same two panes. In the example
  session, after the session of control 10 has ended, the adopted pane 103 still carries
  the handler of the released pane 102 in front of the handler of its new parent 100, and
  pane 102 is no longer in the tree. When the session of control 11 then ends, pane 103
  raises \<open>Closed\<close> and the first delegate runs on the released pane.
\<close>

theorem CloseChild_leaves_stale_handler:
  "(case ex_s3 of
      Inl e \<Rightarrow> False
    | Inr (t, w) \<Rightarrow>
        splitState (members t) = Horizontal
      \<and> map_option (\<lambda>p. (self (members p), control (members p), closedHandlers (members p)))
          (firstChild t) = Some (103, Some 11, [(1, 102, True), (2, 100, True)])
      \<and> lookup_pane 102 t = None
      \<and> Closed_fired (\<lambda>c. True) w 11 = [103]
      \<and> raise_Closed t 103 = Inl DanglingThis)
   \<and> ex_s4 = Inl DanglingThis"
proof -
  let ?t = "ex_split 100 Vertical (ex_leaf 101 10 20 False)
              (ex_split 102 Horizontal (ex_leaf 103 11 21 False) (ex_leaf 104 12 22 False))"
  from ex_s2_world obtain w where e: "ex_s2 = Inr (?t, w)"
    and c: "ConnectionClosed w 10 = [(1, 101)]" "ConnectionClosed w 11 = [(1, 103)]" by blast
  obtain t3 where s3: "session_closed (\<lambda>c. True) 10 ?t w = Inr (t3, w)"
    and t3: "splitState (members t3) = Horizontal"
      "map_option (\<lambda>p. (self (members p), control (members p), closedHandlers (members p)))
          (firstChild t3) = Some (103, Some 11, [(1, 102, True), (2, 100, True)])"
      "lookup_pane 102 t3 = None"
      "raise_Closed t3 103 = Inl DanglingThis"
    by (simp add: session_closed_def Closed_fired_eq c raise_Closed_def ex_split_def ex_leaf_def
          CloseChild_def IsLeaf_def Closed_revoke_def event_remove_def SetupChildCloseHandlers_Some
          fresh_token_def Let_def)
  have f: "Closed_fired (\<lambda>c. True) w 11 = [103]" by (simp add: Closed_fired_eq c)
  have 3: "ex_s3 = Inr (t3, w)" unfolding ex_s3_def andThen_def e using s3 by simp
  have 4: "ex_s4 = Inl DanglingThis"
    unfolding ex_s4_def andThen_def 3 by (simp add: session_closed_def f t3(4))
  from t3 f 4 show ?thesis unfolding 3 by simp
qed

end
